theory Spec2Isabelle
  imports Complex_Main
begin

section \<open>Data model\<close>

text \<open>
  Documents of the store. An ObjectId is \<open>ObjectId s\<close>, with \<open>s\<close> the string that
  its \<open>toString()\<close> gives; the handlers compare ids through \<open>toString()\<close>, that is,
  as ObjectIds. A parameter of a route or of a query string is a string, which the
  library casts to an ObjectId where a query needs one. A time is a number of
  milliseconds. The \<open>views\<close> counter is a JavaScript number that holds an integer: an
  \<open>int\<close> here, with the sum of doubles written out where the handler adds to it.

  The Blog and User schemas (\<open>models/Blog\<close>, \<open>models/User\<close>) are not among
  the sources: the records hold the fields that the handlers read and write. A blog is
  a \<open>blog_doc\<close> (every field but the content) extended by its content, so that the
  projection \<open>select('-content')\<close> of the listing is the truncation of the record.
\<close>

datatype oid = ObjectId string

type_synonym time = nat

record comment =
  c_user :: oid
  c_content :: string
  c_createdAt :: time

record blog_doc =
  blog_id :: oid
  title :: string
  tags :: "string list"
  featuredImage :: string
  published :: bool
  author :: oid
  views :: int
  likes :: "oid list"
  comments :: "comment list"
  excerpt :: string
  createdAt :: time

record blog = blog_doc +
  content :: string

record user_doc =
  user_id :: oid
  username :: string
  email :: string
  bio :: string
  avatar :: string

record user = user_doc +
  password :: string

text \<open>
  A response is \<open>res.status(c).json(body)\<close>: a success with its status and body, or a
  failure with its status, its message and the messages of the validation errors.
\<close>

datatype 'a response = Json nat 'a | Fail nat string "string list"

fun status :: "'a response \<Rightarrow> nat" where
  "status (Json c _) = c"
| "status (Fail c _ _) = c"

text \<open>
  The body of a create or update request: each field is present or \<open>undefined\<close>.
  Bodies are typed: a title, a content and an image are strings, tags are an array of
  strings, published is a boolean.
\<close>

record blog_body =
  b_title :: "string option"
  b_content :: "string option"
  b_tags :: "string list option"
  b_featuredImage :: "string option"
  b_published :: "bool option"

section \<open>The store\<close>

text \<open>
  The collection is the list of its documents. \<open>Blog.findById(req.params.id)\<close> casts
  the parameter to an ObjectId and then finds the first document with that id. The cast
  belongs to the library: it is the parameter \<open>cast\<close> of every handler that reads an
  id from the request, \<open>cast s\<close> being the ObjectId of the string \<open>s\<close>, or \<open>None\<close>
  when the cast throws (a \<open>CastError\<close>, which is the handler's \<open>catch\<close> branch, status
  500). \<open>findById\<close> below is the lookup of the cast id, \<open>None\<close> for \<open>null\<close>.
  \<open>blog.save()\<close> of a fetched document writes it over the stored one;
  \<open>Blog.findByIdAndDelete\<close> removes the first document with the id.

  \<open>save\<close> validates the document against the schema first and throws when the schema
  refuses it. The schema is not among the sources: its validation is the parameter
  \<open>ok\<close> of every handler that saves, and a refusal is the handler's \<open>catch\<close>
  branch, status 500. A store that cannot be reached is outside the model, and so is the
  \<open>updatedAt\<close> time that a save stamps. Requests are handled one after the other:
  a handler takes the store and returns it with its answer.
\<close>

definition findById :: "blog list \<Rightarrow> oid \<Rightarrow> blog option" where
  "findById st i = find (\<lambda>b. blog_id b = i) st"

fun replace_doc :: "blog \<Rightarrow> blog list \<Rightarrow> blog list" where
  "replace_doc b [] = []"
| "replace_doc b (x # xs) =
     (if blog_id x = blog_id b then b # xs else x # replace_doc b xs)"

fun delete_doc :: "oid \<Rightarrow> blog list \<Rightarrow> blog list" where
  "delete_doc i [] = []"
| "delete_doc i (x # xs) = (if blog_id x = i then xs else x # delete_doc i xs)"

definition save :: "(blog \<Rightarrow> bool) \<Rightarrow> blog \<Rightarrow> blog list \<Rightarrow> blog list option" where
  "save ok b st = (if ok b then Some (replace_doc b st) else None)"

definition insert_doc :: "(blog \<Rightarrow> bool) \<Rightarrow> blog \<Rightarrow> blog list \<Rightarrow> blog list option" where
  "insert_doc ok b st = (if ok b then Some (st @ [b]) else None)"

section \<open>PUT /:id and DELETE /:id\<close>

text \<open>
  Every handler below runs behind the \<open>auth\<close> middleware where the route names it:
  \<open>uid\<close> is \<open>req.user._id\<close>, the id of the authenticated requester.

  The validation chain of the update: an optional title of at most 200 characters, an
  optional content that is not empty, optional tags that are an array (they are, by
  their type).
\<close>

definition update_errors :: "blog_body \<Rightarrow> string list" where
  "update_errors body =
     (case b_title body of
        None \<Rightarrow> []
      | Some t \<Rightarrow>
          if length t \<le> 200 then [] else [''Title must be less than 200 characters''])
     @ (case b_content body of
          None \<Rightarrow> []
        | Some c \<Rightarrow> if c \<noteq> [] then [] else [''Content cannot be empty''])"

definition apply_body :: "blog_body \<Rightarrow> blog \<Rightarrow> blog" where
  "apply_body body blog =
     (let blog = (case b_title body of None \<Rightarrow> blog | Some t \<Rightarrow> blog\<lparr>title := t\<rparr>);
          blog = (case b_content body of None \<Rightarrow> blog | Some c \<Rightarrow> blog\<lparr>content := c\<rparr>);
          blog = (case b_tags body of None \<Rightarrow> blog | Some ts \<Rightarrow> blog\<lparr>tags := ts\<rparr>);
          blog = (case b_featuredImage body of
                    None \<Rightarrow> blog | Some f \<Rightarrow> blog\<lparr>featuredImage := f\<rparr>);
          blog = (case b_published body of None \<Rightarrow> blog | Some p \<Rightarrow> blog\<lparr>published := p\<rparr>)
      in blog)"

definition update_blog ::
  "(string \<Rightarrow> oid option) \<Rightarrow> (blog \<Rightarrow> bool) \<Rightarrow> blog list \<Rightarrow> oid \<Rightarrow> string \<Rightarrow> blog_body
     \<Rightarrow> (string \<times> blog) response \<times> blog list" where
  "update_blog cast ok st uid i body =
     (if update_errors body \<noteq> [] then (Fail 400 ''Validation failed'' (update_errors body), st)
      else (case cast i of
        None \<Rightarrow> (Fail 500 ''Server error'' [], st)
      | Some j \<Rightarrow>
          (case findById st j of
             None \<Rightarrow> (Fail 404 ''Blog not found'' [], st)
           | Some blog \<Rightarrow>
               if author blog \<noteq> uid
               then (Fail 403 ''Not authorized to update this blog'' [], st)
               else (case save ok (apply_body body blog) st of
                 None \<Rightarrow> (Fail 500 ''Server error'' [], st)
               | Some st' \<Rightarrow>
                   (Json 200 (''Blog updated successfully'', apply_body body blog), st')))))"

definition delete_blog ::
  "(string \<Rightarrow> oid option) \<Rightarrow> blog list \<Rightarrow> oid \<Rightarrow> string \<Rightarrow> string response \<times> blog list" where
  "delete_blog cast st uid i =
     (case cast i of
        None \<Rightarrow> (Fail 500 ''Server error'' [], st)
      | Some j \<Rightarrow>
          (case findById st j of
             None \<Rightarrow> (Fail 404 ''Blog not found'' [], st)
           | Some blog \<Rightarrow>
               if author blog \<noteq> uid
               then (Fail 403 ''Not authorized to delete this blog'' [], st)
               else (Json 200 ''Blog deleted successfully'', delete_doc j st)))"

section \<open>GET /:id\<close>

text \<open>
  The answer is the saved document. \<open>populate\<close> only changes how an answer shows
  the author and the commenters (their public fields in place of their ids); it is left
  out of every handler.

  \<open>blog.views += 1\<close> adds doubles. \<open>plus_one v\<close> is the double nearest to
  \<open>v + 1\<close> for an integer \<open>v\<close> that a double holds: \<open>v + 1\<close> itself from
  \<open>- 2^53\<close> to \<open>2^53 - 1\<close>, where \<open>2^53 = 9007199254740992\<close>; farther out the
  doubles are the even integers up to \<open>2^54\<close>, \<open>v + 1\<close> lies half way between two
  of them and rounds to the one whose half is even; beyond \<open>2^54\<close> it rounds back to
  \<open>v\<close>. So a counter that has reached \<open>2^53\<close> stays there.
\<close>

definition plus_one :: "int \<Rightarrow> int" where
  "plus_one v =
     (if - 9007199254740992 \<le> v \<and> v < 9007199254740992 then v + 1
      else if \<bar>v\<bar> < 18014398509481984 \<and> odd (\<bar>v\<bar> div 2) then v + 2
      else v)"

definition get_blog ::
  "(string \<Rightarrow> oid option) \<Rightarrow> (blog \<Rightarrow> bool) \<Rightarrow> blog list \<Rightarrow> string
     \<Rightarrow> blog response \<times> blog list" where
  "get_blog cast ok st i =
     (case cast i of
        None \<Rightarrow> (Fail 500 ''Server error'' [], st)
      | Some j \<Rightarrow>
          (case findById st j of
             None \<Rightarrow> (Fail 404 ''Blog not found'' [], st)
           | Some blog \<Rightarrow>
               (let blog = blog\<lparr>views := plus_one (views blog)\<rparr>
                in (case save ok blog st of
                      None \<Rightarrow> (Fail 500 ''Server error'' [], st)
                    | Some st' \<Rightarrow> (Json 200 blog, st')))))"

section \<open>POST /:id/like\<close>

text \<open>
  \<open>blog.likes\<close> is an array of the document: its \<open>includes\<close> compares an ObjectId
  with the elements by their strings, as the \<open>filter\<close> of the handler does.
\<close>

record like_reply =
  message :: string
  likes_count :: nat
  isLiked :: bool

definition like_blog ::
  "(string \<Rightarrow> oid option) \<Rightarrow> (blog \<Rightarrow> bool) \<Rightarrow> blog list \<Rightarrow> oid \<Rightarrow> string
     \<Rightarrow> like_reply response \<times> blog list" where
  "like_blog cast ok st uid i =
     (case cast i of
        None \<Rightarrow> (Fail 500 ''Server error'' [], st)
      | Some j \<Rightarrow>
          (case findById st j of
             None \<Rightarrow> (Fail 404 ''Blog not found'' [], st)
           | Some blog \<Rightarrow>
               (let liked = (uid \<in> set (likes blog));
                    blog = (if liked
                            then blog\<lparr>likes := filter (\<lambda>like. like \<noteq> uid) (likes blog)\<rparr>
                            else blog\<lparr>likes := likes blog @ [uid]\<rparr>)
                in (case save ok blog st of
                      None \<Rightarrow> (Fail 500 ''Server error'' [], st)
                    | Some st' \<Rightarrow>
                        (Json 200
                           \<lparr>message = (if liked then ''Blog unliked'' else ''Blog liked''),
                            likes_count = length (likes blog),
                            isLiked = (\<not> liked)\<rparr>, st')))))"

section \<open>POST /:id/comments\<close>

text \<open>
  The validation chain of a comment: a content that is not empty and has at most 1000
  characters. The handler answers with the comment it appended.
\<close>

definition comment_errors :: "string option \<Rightarrow> string list" where
  "comment_errors x =
     (let c = (case x of None \<Rightarrow> [] | Some c \<Rightarrow> c)
      in (if c \<noteq> [] then [] else [''Comment content is required''])
         @ (if length c \<le> 1000 then [] else [''Comment must be less than 1000 characters'']))"

definition add_comment ::
  "(string \<Rightarrow> oid option) \<Rightarrow> (blog \<Rightarrow> bool) \<Rightarrow> time \<Rightarrow> blog list \<Rightarrow> oid \<Rightarrow> string
     \<Rightarrow> string option \<Rightarrow> (string \<times> comment) response \<times> blog list" where
  "add_comment cast ok t st uid i x =
     (if comment_errors x \<noteq> [] then (Fail 400 ''Validation failed'' (comment_errors x), st)
      else (case cast i of
        None \<Rightarrow> (Fail 500 ''Server error'' [], st)
      | Some j \<Rightarrow>
          (case findById st j of
             None \<Rightarrow> (Fail 404 ''Blog not found'' [], st)
           | Some blog \<Rightarrow>
               (let comment = \<lparr>c_user = uid, c_content = the x, c_createdAt = t\<rparr>;
                    blog = blog\<lparr>comments := comments blog @ [comment]\<rparr>
                in (case save ok blog st of
                      None \<Rightarrow> (Fail 500 ''Server error'' [], st)
                    | Some st' \<Rightarrow>
                        (Json 201 (''Comment added successfully'', last (comments blog)),
                         st'))))))"

section \<open>POST /\<close>

text \<open>
  The validation chain of the creation: a title that is not empty and has at most 200
  characters, a content that is not empty; a missing field validates as the empty string.
\<close>

definition create_errors :: "blog_body \<Rightarrow> string list" where
  "create_errors body =
     (let t = (case b_title body of None \<Rightarrow> [] | Some t \<Rightarrow> t);
          c = (case b_content body of None \<Rightarrow> [] | Some c \<Rightarrow> c)
      in (if t \<noteq> [] then [] else [''Title is required''])
         @ (if length t \<le> 200 then [] else [''Title must be less than 200 characters''])
         @ (if c \<noteq> [] then [] else [''Content is required'']))"

text \<open>
  What the store and the schema give a new document: its id, its creation time and its
  excerpt (a field of the schema that no handler writes).
\<close>

record fresh =
  new_id :: oid
  now :: time
  new_excerpt :: string

text \<open>
  Modelled from the spec: the defaults of the Blog schema, which is not among the sources:
  a new blog has no view; its likes and its comments, arrays of the document, are empty.
  \<open>new_blog\<close> is \<open>new Blog({title, content, tags: tags || [], featuredImage:
  featuredImage || '', published: published || false, author: req.user._id})\<close>; the
  handler builds it after the validation, when title and content are present.
\<close>

definition new_blog :: "fresh \<Rightarrow> oid \<Rightarrow> blog_body \<Rightarrow> blog" where
  "new_blog f uid body =
     \<lparr>blog_id = new_id f,
      title = the (b_title body),
      tags = (case b_tags body of None \<Rightarrow> [] | Some ts \<Rightarrow> ts),
      featuredImage = (case b_featuredImage body of None \<Rightarrow> [] | Some i \<Rightarrow> i),
      published = (case b_published body of None \<Rightarrow> False | Some p \<Rightarrow> p),
      author = uid,
      views = 0,
      likes = [],
      comments = [],
      excerpt = new_excerpt f,
      createdAt = now f,
      content = the (b_content body)\<rparr>"

definition create_blog ::
  "(blog \<Rightarrow> bool) \<Rightarrow> fresh \<Rightarrow> blog list \<Rightarrow> oid \<Rightarrow> blog_body
     \<Rightarrow> (string \<times> blog) response \<times> blog list" where
  "create_blog ok f st uid body =
     (if create_errors body \<noteq> [] then (Fail 400 ''Validation failed'' (create_errors body), st)
      else (case insert_doc ok (new_blog f uid body) st of
              None \<Rightarrow> (Fail 500 ''Server error'' [], st)
            | Some st' \<Rightarrow> (Json 201 (''Blog created successfully'', new_blog f uid body), st')))"

text \<open>
  Modelled from the spec: the validation of the Blog schema, which is not among the
  sources: a title of 1 to 200 characters and a content that is not empty.
\<close>

definition spec_schema :: "blog \<Rightarrow> bool" where
  "spec_schema b = (title b \<noteq> [] \<and> length (title b) \<le> 200 \<and> content b \<noteq> [])"

section \<open>Queries\<close>

text \<open>
  A filter of \<open>Blog.find\<close> and \<open>Blog.countDocuments\<close>, with the keys the handlers
  set: \<open>published\<close>, \<open>$or\<close>, \<open>tags\<close> and \<open>author\<close>; an absent key constrains
  nothing. A compiled regular expression is the predicate of the strings it matches.
  On an array field such as \<open>tags\<close>, \<open>$in\<close> with a regular expression holds when
  an element of the array matches.
\<close>

datatype clause =
  Title_regex "string \<Rightarrow> bool"
| Content_regex "string \<Rightarrow> bool"
| Tags_in "string \<Rightarrow> bool"

record query =
  q_published :: "bool option"
  q_or :: "clause list option"
  q_tags :: "(string \<Rightarrow> bool) option"
  q_author :: "oid option"

fun holds :: "clause \<Rightarrow> blog \<Rightarrow> bool" where
  "holds (Title_regex r) b = r (title b)"
| "holds (Content_regex r) b = r (content b)"
| "holds (Tags_in r) b = (\<exists>t \<in> set (tags b). r t)"

definition matches :: "query \<Rightarrow> blog \<Rightarrow> bool" where
  "matches q b =
     ((case q_published q of None \<Rightarrow> True | Some p \<Rightarrow> published b = p)
      \<and> (case q_or q of None \<Rightarrow> True | Some cs \<Rightarrow> (\<exists>c \<in> set cs. holds c b))
      \<and> (case q_tags q of None \<Rightarrow> True | Some r \<Rightarrow> (\<exists>t \<in> set (tags b). r t))
      \<and> (case q_author q of None \<Rightarrow> True | Some a \<Rightarrow> author b = a))"

text \<open>
  \<open>sort({createdAt: -1})\<close>: the newest first. The store fixes no order among
  documents of one creation time; the model takes the later of the collection first.
\<close>

definition sort_desc :: "blog list \<Rightarrow> blog list" where
  "sort_desc bs = rev (sort_key createdAt bs)"

text \<open>
  \<open>find(q).sort(..).skip(skip).limit(limit)\<close>, on a filter whose author the library
  has cast (see \<open>public_query\<close>). The store refuses a negative skip (the handler's
  \<open>catch\<close> branch) and reads a negative limit as its absolute value.
\<close>

definition find_page :: "query \<Rightarrow> int \<Rightarrow> int \<Rightarrow> blog list \<Rightarrow> blog list option" where
  "find_page q skip limit st =
     (if skip < 0 then None
      else Some (take (nat \<bar>limit\<bar>) (drop (nat skip) (sort_desc (filter (matches q) st)))))"

definition countDocuments :: "query \<Rightarrow> blog list \<Rightarrow> int" where
  "countDocuments q st = int (length (filter (matches q) st))"

text \<open>
  \<open>parseInt(x) || d\<close>, on the value of \<open>parseInt\<close>: \<open>None\<close> is \<open>NaN\<close>, and
  both \<open>NaN\<close> and 0 are falsy. \<open>Math.ceil(a / b)\<close> on integers, \<open>b\<close> not 0.
\<close>

definition or_default :: "int option \<Rightarrow> int \<Rightarrow> int" where
  "or_default x d = (case x of None \<Rightarrow> d | Some n \<Rightarrow> if n = 0 then d else n)"

definition ceil_div :: "int \<Rightarrow> int \<Rightarrow> int" where
  "ceil_div a b = - ((- a) div b)"

record pagination =
  currentPage :: int
  totalPages :: int
  totalBlogs :: int
  hasNext :: bool
  hasPrev :: bool

record 'a listing =
  blogs :: "'a list"
  pagination :: pagination

definition paginate :: "int \<Rightarrow> int \<Rightarrow> int \<Rightarrow> pagination" where
  "paginate page limit count =
     \<lparr>currentPage = page,
      totalPages = ceil_div count limit,
      totalBlogs = count,
      hasNext = (page < ceil_div count limit),
      hasPrev = (page > 1)\<rparr>"

section \<open>GET / (the public listing)\<close>

text \<open>
  The query string: \<open>page_arg\<close> and \<open>limit_arg\<close> are the values of
  \<open>parseInt(req.query.page)\<close> and \<open>parseInt(req.query.limit)\<close>, the others are
  present or \<open>undefined\<close>. The parameter \<open>rx\<close> is the regular-expression engine
  with the flag \<open>i\<close>: \<open>rx s\<close> is the compiled pattern \<open>s\<close>, or \<open>None\<close> when
  \<open>new RegExp(s, 'i')\<close> throws a syntax error (the handler's \<open>catch\<close> branch).

  The handler sets \<open>query.author\<close> to the string of the query string, and
  \<open>Blog.find\<close> and \<open>Blog.countDocuments\<close> cast it to an ObjectId, throwing when they
  cannot (the handler's \<open>catch\<close> branch, which no answer precedes). \<open>public_query\<close>
  is the filter as the store reads it, its author cast, or \<open>None\<close> when the handler
  throws before it answers.
\<close>

record list_params =
  page_arg :: "int option"
  limit_arg :: "int option"
  search_arg :: "string option"
  tag_arg :: "string option"
  author_arg :: "string option"

definition or_empty :: "string option \<Rightarrow> string" where
  "or_empty x = (case x of None \<Rightarrow> [] | Some s \<Rightarrow> s)"

definition public_query ::
  "(string \<Rightarrow> (string \<Rightarrow> bool) option) \<Rightarrow> (string \<Rightarrow> oid option) \<Rightarrow> string \<Rightarrow> string
     \<Rightarrow> string \<Rightarrow> query option" where
  "public_query rx cast search tag author_id =
     (let query = \<lparr>q_published = Some True, q_or = None, q_tags = None, q_author = None\<rparr>
      in (case (if search \<noteq> []
                then (case rx search of
                        None \<Rightarrow> None
                      | Some r \<Rightarrow>
                          Some (query\<lparr>q_or := Some [Title_regex r, Content_regex r, Tags_in r]\<rparr>))
                else Some query) of
            None \<Rightarrow> None
          | Some query \<Rightarrow>
              (case (if tag \<noteq> []
                     then (case rx tag of
                             None \<Rightarrow> None
                           | Some r \<Rightarrow> Some (query\<lparr>q_tags := Some r\<rparr>))
                     else Some query) of
                 None \<Rightarrow> None
               | Some query \<Rightarrow>
                   (if author_id \<noteq> []
                    then (case cast author_id of
                            None \<Rightarrow> None
                          | Some a \<Rightarrow> Some (query\<lparr>q_author := Some a\<rparr>))
                    else Some query))))"

definition list_blogs ::
  "(string \<Rightarrow> (string \<Rightarrow> bool) option) \<Rightarrow> (string \<Rightarrow> oid option) \<Rightarrow> blog list \<Rightarrow> list_params
     \<Rightarrow> blog_doc listing response" where
  "list_blogs rx cast st p =
     (let page = or_default (page_arg p) 1;
          limit = or_default (limit_arg p) 10;
          skip = (page - 1) * limit
      in (case public_query rx cast (or_empty (search_arg p)) (or_empty (tag_arg p))
                 (or_empty (author_arg p)) of
            None \<Rightarrow> Fail 500 ''Server error'' []
          | Some query \<Rightarrow>
              (case find_page query skip limit st of
                 None \<Rightarrow> Fail 500 ''Server error'' []
               | Some bs \<Rightarrow>
                   Json 200 \<lparr>blogs = map blog_doc.truncate bs,
                             pagination = paginate page limit (countDocuments query st)\<rparr>)))"

section \<open>GET /my-blogs\<close>

record my_params =
  my_page_arg :: "int option"
  my_limit_arg :: "int option"
  published_arg :: "string option"

definition my_query :: "oid \<Rightarrow> string option \<Rightarrow> query" where
  "my_query uid pub =
     (let query = \<lparr>q_published = None, q_or = None, q_tags = None, q_author = Some uid\<rparr>
      in (case pub of
            None \<Rightarrow> query
          | Some s \<Rightarrow> query\<lparr>q_published := Some (s = ''true'')\<rparr>))"

definition my_blogs :: "blog list \<Rightarrow> oid \<Rightarrow> my_params \<Rightarrow> blog listing response" where
  "my_blogs st uid p =
     (let page = or_default (my_page_arg p) 1;
          limit = or_default (my_limit_arg p) 10;
          skip = (page - 1) * limit;
          query = my_query uid (published_arg p)
      in (case find_page query skip limit st of
            None \<Rightarrow> Fail 500 ''Server error'' []
          | Some bs \<Rightarrow>
              Json 200 \<lparr>blogs = bs,
                        pagination = paginate page limit (countDocuments query st)\<rparr>))"

section \<open>GET /profile/:id\<close>

text \<open>
  \<open>select('title excerpt createdAt views likes')\<close>: the five fields and the id, which
  a projection keeps. \<open>select('-password')\<close> is the truncation of the user record.
  \<open>User.findById\<close> and the author of the filter of \<open>Blog.find\<close> cast the same
  parameter.
\<close>

record blog_card =
  card_id :: oid
  card_title :: string
  card_excerpt :: string
  card_createdAt :: time
  card_views :: int
  card_likes :: "oid list"

definition card :: "blog \<Rightarrow> blog_card" where
  "card b =
     \<lparr>card_id = blog_id b, card_title = title b, card_excerpt = excerpt b,
      card_createdAt = createdAt b, card_views = views b, card_likes = likes b\<rparr>"

definition get_profile ::
  "(string \<Rightarrow> oid option) \<Rightarrow> user list \<Rightarrow> blog list \<Rightarrow> string
     \<Rightarrow> (user_doc \<times> blog_card list) response" where
  "get_profile cast users st i =
     (case cast i of
        None \<Rightarrow> Fail 500 ''Server error'' []
      | Some j \<Rightarrow>
          (case find (\<lambda>u. user_id u = j) users of
             None \<Rightarrow> Fail 404 ''User not found'' []
           | Some user \<Rightarrow>
               Json 200 (user_doc.truncate user,
                         map card (take 10 (sort_desc (filter
                           (matches \<lparr>q_published = Some True, q_or = None, q_tags = None,
                                     q_author = Some j\<rparr>) st))))))"

section \<open>Reachable stores\<close>

text \<open>
  The stores that the handlers can make of the empty collection: each handler that
  writes, on any request, whatever it answers.
\<close>

inductive reachable :: "(string \<Rightarrow> oid option) \<Rightarrow> (blog \<Rightarrow> bool) \<Rightarrow> blog list \<Rightarrow> bool"
  for cast :: "string \<Rightarrow> oid option" and ok :: "blog \<Rightarrow> bool" where
  start: "reachable cast ok []"
| created: "reachable cast ok st \<Longrightarrow> reachable cast ok (snd (create_blog ok f st uid body))"
| updated: "reachable cast ok st \<Longrightarrow> reachable cast ok (snd (update_blog cast ok st uid i body))"
| deleted: "reachable cast ok st \<Longrightarrow> reachable cast ok (snd (delete_blog cast st uid i))"
| viewed: "reachable cast ok st \<Longrightarrow> reachable cast ok (snd (get_blog cast ok st i))"
| liked: "reachable cast ok st \<Longrightarrow> reachable cast ok (snd (like_blog cast ok st uid i))"
| commented:
    "reachable cast ok st \<Longrightarrow> reachable cast ok (snd (add_comment cast ok t st uid i x))"

section \<open>Example data\<close>

text \<open>
  A regular-expression engine for the examples. It knows the patterns made of letters
  and digits only, which match the texts that contain them, the case of letters apart,
  and it stands for a syntax error on every other pattern.
\<close>

definition lower :: "char \<Rightarrow> char" where
  "lower c =
     (case map_of (zip ''ABCDEFGHIJKLMNOPQRSTUVWXYZ'' ''abcdefghijklmnopqrstuvwxyz'') c of
        None \<Rightarrow> c
      | Some d \<Rightarrow> d)"

definition alnum :: "char \<Rightarrow> bool" where
  "alnum c =
     (c \<in> set ''ABCDEFGHIJKLMNOPQRSTUVWXYZabcdefghijklmnopqrstuvwxyz0123456789'')"

fun starts_with :: "string \<Rightarrow> string \<Rightarrow> bool" where
  "starts_with [] t = True"
| "starts_with (p # ps) [] = False"
| "starts_with (p # ps) (c # cs) = (p = c \<and> starts_with ps cs)"

fun contains :: "string \<Rightarrow> string \<Rightarrow> bool" where
  "contains p [] = (p = [])"
| "contains p (c # cs) = (starts_with p (c # cs) \<or> contains p cs)"

definition literal_rx :: "string \<Rightarrow> (string \<Rightarrow> bool) option" where
  "literal_rx p =
     (if list_all alnum p then Some (\<lambda>t. contains (map lower p) (map lower t)) else None)"

text \<open>
  A cast for the examples: the strings of 24 hexadecimal digits, read without regard
  to the case of the letters; every other string is refused.
\<close>

definition hex :: "char \<Rightarrow> bool" where
  "hex c = (c \<in> set ''0123456789abcdefABCDEF'')"

definition hex_cast :: "string \<Rightarrow> oid option" where
  "hex_cast s =
     (if length s = 24 \<and> list_all hex s then Some (ObjectId (map lower s)) else None)"

text \<open>Two users, and a store of three blogs: two of Ann's, one a draft, and one of Bob's.\<close>

definition ann :: oid where "ann = ObjectId ''64a000000000000000000001''"
definition bob :: oid where "bob = ObjectId ''64a000000000000000000002''"

definition ann_user :: user where
  "ann_user = \<lparr>user_id = ann, username = ''ann'', email = ''ann@example.org'', bio = [],
                avatar = [], password = ''$2a$10$abcdefghij''\<rparr>"

definition hello_id :: oid where "hello_id = ObjectId ''64b000000000000000000001''"
definition draft_id :: oid where "draft_id = ObjectId ''64b000000000000000000002''"
definition memo_id :: oid where "memo_id = ObjectId ''64b000000000000000000003''"
definition other_id :: oid where "other_id = ObjectId ''64b000000000000000000009''"

text \<open>
  Parameters of routes: the id of \<open>hello\<close> (with a capital letter), an id that no
  blog has, the id of \<open>ann\<close>, the id of \<open>bob\<close>, and a string that is no id.
\<close>

definition hello_param :: string where "hello_param = ''64B000000000000000000001''"
definition other_param :: string where "other_param = ''64b000000000000000000009''"
definition ann_param :: string where "ann_param = ''64a000000000000000000001''"
definition bob_param :: string where "bob_param = ''64a000000000000000000002''"
definition bad_param :: string where "bad_param = ''abc''"

definition hello :: blog where
  "hello = \<lparr>blog_id = hello_id, title = ''Hello'', tags = [''News''], featuredImage = [],
            published = True, author = ann, views = 3, likes = [bob], comments = [],
            excerpt = ''Wor'', createdAt = 10, content = ''World''\<rparr>"

definition draft :: blog where
  "draft = \<lparr>blog_id = draft_id, title = ''Plans'', tags = [], featuredImage = [],
            published = False, author = ann, views = 0, likes = [], comments = [],
            excerpt = ''Lat'', createdAt = 20, content = ''Later''\<rparr>"

definition memo :: blog where
  "memo = \<lparr>blog_id = memo_id, title = ''Notes'', tags = [''misc''], featuredImage = [],
            published = True, author = bob, views = 7, likes = [], comments = [],
            excerpt = ''hel'', createdAt = 30, content = ''hello again''\<rparr>"

definition store :: "blog list" where
  "store = [hello, draft, memo]"

text \<open>An update that clears the tags and the image and unpublishes.\<close>

definition retag :: blog_body where
  "retag = \<lparr>b_title = None, b_content = None, b_tags = Some [], b_featuredImage = Some [],
            b_published = Some False\<rparr>"

text \<open>An update of the title, and an update to an empty content.\<close>

definition retitle :: blog_body where
  "retitle = \<lparr>b_title = Some ''Hello again'', b_content = None, b_tags = None,
              b_featuredImage = None, b_published = None\<rparr>"

definition blank :: blog_body where
  "blank = \<lparr>b_title = None, b_content = Some [], b_tags = None, b_featuredImage = None,
            b_published = None\<rparr>"

text \<open>A sequence of like requests on one blog, one requester after the other.\<close>

fun like_all ::
  "(string \<Rightarrow> oid option) \<Rightarrow> (blog \<Rightarrow> bool) \<Rightarrow> blog list \<Rightarrow> string \<Rightarrow> oid list \<Rightarrow> blog list" where
  "like_all cast ok st i [] = st"
| "like_all cast ok st i (u # us) = like_all cast ok (snd (like_blog cast ok st u i)) i us"

text \<open>
  A creation with no \<open>published\<close> field, and one with no title. What the store gives
  the new document.
\<close>

definition first_post :: blog_body where
  "first_post = \<lparr>b_title = Some ''Hello'', b_content = Some ''World'', b_tags = None,
                 b_featuredImage = None, b_published = None\<rparr>"

definition untitled :: blog_body where
  "untitled = \<lparr>b_title = None, b_content = Some ''World'', b_tags = None,
               b_featuredImage = None, b_published = None\<rparr>"

definition next_doc :: fresh where
  "next_doc = \<lparr>new_id = other_id, now = 40, new_excerpt = ''Wor''\<rparr>"

text \<open>Query strings: the second page of one document, of each of the two listings.\<close>

definition second_page :: list_params where
  "second_page = \<lparr>page_arg = Some 2, limit_arg = Some 1, search_arg = None, tag_arg = None,
                  author_arg = None\<rparr>"

definition my_second_page :: my_params where
  "my_second_page = \<lparr>my_page_arg = Some 2, my_limit_arg = Some 1, published_arg = None\<rparr>"

text \<open>Query strings: the first page of ten, of the blogs of an author.\<close>

definition by_author :: "string \<Rightarrow> list_params" where
  "by_author a = \<lparr>page_arg = Some 1, limit_arg = Some 10, search_arg = None, tag_arg = None,
                  author_arg = Some a\<rparr>"

text \<open>Query strings: the public listing with no parameter.\<close>

definition front_page :: list_params where
  "front_page = \<lparr>page_arg = None, limit_arg = None, search_arg = None, tag_arg = None,
                 author_arg = None\<rparr>"

text \<open>
  Query strings: a search for \<open>hello\<close>, a search for \<open>news\<close>, and a search for
  \<open>hello\<close> among the blogs tagged \<open>misc\<close>.
\<close>

definition search_hello :: list_params where
  "search_hello = \<lparr>page_arg = None, limit_arg = None, search_arg = Some ''hello'',
                   tag_arg = None, author_arg = None\<rparr>"

definition search_news :: list_params where
  "search_news = \<lparr>page_arg = None, limit_arg = None, search_arg = Some ''news'',
                  tag_arg = None, author_arg = None\<rparr>"

definition search_hello_misc :: list_params where
  "search_hello_misc = \<lparr>page_arg = None, limit_arg = None, search_arg = Some ''hello'',
                        tag_arg = Some ''misc'', author_arg = None\<rparr>"


text \<open>The users of the examples: Ann has an account.\<close>

definition ann_public :: user_doc where
  "ann_public = \<lparr>user_id = ann, username = ''ann'', email = ''ann@example.org'', bio = [],
                  avatar = []\<rparr>"

lemmas rx_defs = literal_rx_def lower_def alnum_def

lemmas example_defs =
  ann_def bob_def hello_id_def draft_id_def memo_id_def other_id_def
  hello_def draft_def memo_def store_def

section \<open>The store: lemmas\<close>

lemma findById_replace_same:
  "findById st (blog_id b) \<noteq> None \<Longrightarrow> findById (replace_doc b st) (blog_id b) = Some b"
  by (induction st) (auto simp: findById_def)

lemma findById_replace_other:
  "j \<noteq> blog_id b \<Longrightarrow> findById (replace_doc b st) j = findById st j"
  by (induction st) (auto simp: findById_def)

lemma findById_id: "findById st i = Some b \<Longrightarrow> blog_id b = i"
  by (auto simp: findById_def find_Some_iff)

lemma findById_mem: "findById st i = Some b \<Longrightarrow> b \<in> set st"
  by (auto simp: findById_def find_Some_iff)

lemma findById_saved:
  assumes "findById st i = Some b" and "blog_id b' = blog_id b"
  shows "findById (replace_doc b' st) i = Some b'"
proof -
  have "blog_id b' = i" using assms findById_id by simp
  moreover have "findById st (blog_id b') \<noteq> None" using assms \<open>blog_id b' = i\<close> by simp
  ultimately show ?thesis using findById_replace_same by blast
qed

lemma findById_saved_other:
  assumes "findById st i = Some b" and "blog_id b' = blog_id b" and "j \<noteq> i"
  shows "findById (replace_doc b' st) j = findById st j"
  using assms findById_id findById_replace_other by metis


text \<open>The cast of the examples on the parameters of the examples.\<close>

lemma cast_hello: "hex_cast hello_param = Some hello_id"
  by (simp add: hex_cast_def hex_def lower_def hello_param_def hello_id_def)

lemma cast_other: "hex_cast other_param = Some other_id"
  by (simp add: hex_cast_def hex_def lower_def other_param_def other_id_def)

lemma cast_bad: "hex_cast bad_param = None"
  by (simp add: hex_cast_def bad_param_def)

section \<open>GET /:id counts the views\<close>

lemma plus_one_safe:
  assumes "\<bar>v\<bar> < 2 ^ 53"
  shows "plus_one v = v + 1"
proof -
  have "- 9007199254740992 \<le> v \<and> v < 9007199254740992" using assms by auto
  then show ?thesis by (simp add: plus_one_def)
qed

lemma get_blog_Json:
  assumes "get_blog cast ok st i = (Json c b', st')"
  shows "c = 200 \<and>
    (\<exists>j b. cast i = Some j \<and> findById st j = Some b \<and> findById st' j = Some b'
       \<and> b' = b\<lparr>views := plus_one (views b)\<rparr> \<and> st' = replace_doc b' st
       \<and> (\<forall>k. k \<noteq> j \<longrightarrow> findById st' k = findById st k))"
proof -
  from assms obtain j b where j: "cast i = Some j" and b: "findById st j = Some b"
    and b': "b' = b\<lparr>views := plus_one (views b)\<rparr>" and st': "st' = replace_doc b' st"
    and c: "c = 200"
    by (auto simp: get_blog_def save_def Let_def split: option.splits if_splits)
  have id: "blog_id b' = blog_id b" using b' by simp
  show ?thesis
    using j b b' c st' findById_saved[OF b id] findById_saved_other[OF b id] by simp
qed

text \<open>
  Claim C3, as the claim states it, fails twice. The counter is a double: a blog whose
  views have reached \<open>2^53 = 9007199254740992\<close> is retrieved with success and its
  views stay what they were. And an id that is no ObjectId, which no blog has, is
  answered 500, not 404: the lookup throws when it casts the id.
\<close>

theorem get_blog_not_counted_or_500:
  "get_blog hex_cast spec_schema [hello\<lparr>views := 9007199254740992\<rparr>] hello_param
     = (Json 200 (hello\<lparr>views := 9007199254740992\<rparr>), [hello\<lparr>views := 9007199254740992\<rparr>])
   \<and> (2::int) ^ 53 = 9007199254740992
   \<and> find (\<lambda>b. blog_id b = ObjectId bad_param) store = None
   \<and> get_blog hex_cast spec_schema store bad_param = (Fail 500 ''Server error'' [], store)"
proof -
  have "get_blog hex_cast spec_schema [hello\<lparr>views := 9007199254740992\<rparr>] hello_param
     = (Json 200 (hello\<lparr>views := 9007199254740992\<rparr>), [hello\<lparr>views := 9007199254740992\<rparr>])"
    by (simp add: get_blog_def cast_hello findById_def save_def spec_schema_def plus_one_def
        Let_def hello_def)
  moreover have "find (\<lambda>b. blog_id b = ObjectId bad_param) store = None"
    by (simp add: bad_param_def example_defs)
  moreover have "get_blog hex_cast spec_schema store bad_param = (Fail 500 ''Server error'' [], store)"
    by (simp add: get_blog_def cast_bad)
  ultimately show ?thesis by simp
qed

text \<open>
  Claim C3, amended. When the id casts to an ObjectId that no blog has, GET /:id answers
  404 and the store is as it was; when the id does not cast, it answers 500 and the
  store is as it was. When the blog exists and the save is accepted, the answer is 200
  with the blog saved under the id, its views the double sum of the old views and 1.
  Every answer with a body is such an answer: status 200, the stored blog is the
  returned one, every other document is as it was, and the views are the old views plus
  exactly 1 when the old views are below \<open>2^53\<close> in absolute value. Two calls in
  sequence that both answer count one view each below that bound. An answer that is not
  200 leaves the store as it was. The handler takes no requester: the count does not
  depend on who views.
\<close>

theorem get_blog_counts_views:
  "(\<forall>j. cast i = Some j \<and> findById st j = None \<longrightarrow>
       get_blog cast ok st i = (Fail 404 ''Blog not found'' [], st))
   \<and> (cast i = None \<longrightarrow> get_blog cast ok st i = (Fail 500 ''Server error'' [], st))
   \<and> (\<forall>j b. cast i = Some j \<and> findById st j = Some b
         \<and> ok (b\<lparr>views := plus_one (views b)\<rparr>) \<longrightarrow>
         get_blog cast ok st i =
           (Json 200 (b\<lparr>views := plus_one (views b)\<rparr>),
            replace_doc (b\<lparr>views := plus_one (views b)\<rparr>) st))
   \<and> (\<forall>c b' st'. get_blog cast ok st i = (Json c b', st') \<longrightarrow>
         c = 200 \<and>
         (\<exists>j b. cast i = Some j \<and> findById st j = Some b \<and> findById st' j = Some b'
            \<and> b' = b\<lparr>views := plus_one (views b)\<rparr>
            \<and> (\<bar>views b\<bar> < 2 ^ 53 \<longrightarrow> views b' = views b + 1)
            \<and> (\<forall>k. k \<noteq> j \<longrightarrow> findById st' k = findById st k)))
   \<and> (\<forall>c1 b1 st1 c2 b2 st2.
         get_blog cast ok st i = (Json c1 b1, st1) \<and> get_blog cast ok st1 i = (Json c2 b2, st2)
         \<and> \<bar>views b1\<bar> < 2 ^ 53 \<longrightarrow>
         views b2 = views b1 + 1)
   \<and> (\<forall>r st'. get_blog cast ok st i = (r, st') \<and> status r \<noteq> 200 \<longrightarrow> st' = st)"
proof (intro conjI allI impI)
  fix j
  assume "cast i = Some j \<and> findById st j = None"
  then show "get_blog cast ok st i = (Fail 404 ''Blog not found'' [], st)"
    by (simp add: get_blog_def)
next
  assume "cast i = None"
  then show "get_blog cast ok st i = (Fail 500 ''Server error'' [], st)"
    by (simp add: get_blog_def)
next
  fix j b
  assume "cast i = Some j \<and> findById st j = Some b \<and> ok (b\<lparr>views := plus_one (views b)\<rparr>)"
  then show "get_blog cast ok st i =
           (Json 200 (b\<lparr>views := plus_one (views b)\<rparr>),
            replace_doc (b\<lparr>views := plus_one (views b)\<rparr>) st)"
    by (simp add: get_blog_def save_def Let_def)
next
  fix c b' st'
  assume a: "get_blog cast ok st i = (Json c b', st')"
  show "c = 200" using get_blog_Json[OF a] by simp
  from get_blog_Json[OF a] obtain j b where jb: "cast i = Some j" "findById st j = Some b"
    "findById st' j = Some b'" "b' = b\<lparr>views := plus_one (views b)\<rparr>"
    "\<forall>k. k \<noteq> j \<longrightarrow> findById st' k = findById st k" by blast
  have "\<bar>views b\<bar> < 2 ^ 53 \<longrightarrow> views b' = views b + 1"
    using jb(4) plus_one_safe by simp
  then show "\<exists>j b. cast i = Some j \<and> findById st j = Some b \<and> findById st' j = Some b'
            \<and> b' = b\<lparr>views := plus_one (views b)\<rparr>
            \<and> (\<bar>views b\<bar> < 2 ^ 53 \<longrightarrow> views b' = views b + 1)
            \<and> (\<forall>k. k \<noteq> j \<longrightarrow> findById st' k = findById st k)"
    using jb by blast
next
  fix c1 b1 st1 c2 b2 st2
  assume a: "get_blog cast ok st i = (Json c1 b1, st1) \<and> get_blog cast ok st1 i = (Json c2 b2, st2)
         \<and> \<bar>views b1\<bar> < 2 ^ 53"
  then have a1: "get_blog cast ok st i = (Json c1 b1, st1)"
    and a2: "get_blog cast ok st1 i = (Json c2 b2, st2)" and v: "\<bar>views b1\<bar> < 2 ^ 53"
    by simp_all
  from get_blog_Json[OF a1] obtain j where j: "cast i = Some j" "findById st1 j = Some b1"
    by blast
  from get_blog_Json[OF a2] j obtain b where "findById st1 j = Some b"
    "b2 = b\<lparr>views := plus_one (views b)\<rparr>" by auto
  then have "b2 = b1\<lparr>views := plus_one (views b1)\<rparr>" using j(2) by simp
  then show "views b2 = views b1 + 1" using plus_one_safe[OF v] by simp
next
  fix r st'
  assume "get_blog cast ok st i = (r, st') \<and> status r \<noteq> 200"
  then show "st' = st"
    by (auto simp: get_blog_def save_def Let_def split: option.splits if_splits)
qed

theorem get_blog_counts_views_witness:
  "hex_cast other_param = Some other_id
   \<and> findById store other_id = None
   \<and> get_blog hex_cast spec_schema store other_param = (Fail 404 ''Blog not found'' [], store)
   \<and> hex_cast bad_param = None
   \<and> get_blog hex_cast spec_schema store bad_param = (Fail 500 ''Server error'' [], store)
   \<and> hex_cast hello_param = Some hello_id
   \<and> findById store hello_id = Some hello
   \<and> views hello = 3
   \<and> spec_schema (hello\<lparr>views := plus_one (views hello)\<rparr>)
   \<and> get_blog hex_cast spec_schema store hello_param
       = (Json 200 (hello\<lparr>views := 4\<rparr>), [hello\<lparr>views := 4\<rparr>, draft, memo])
   \<and> get_blog hex_cast spec_schema [hello\<lparr>views := 4\<rparr>, draft, memo] hello_param
       = (Json 200 (hello\<lparr>views := 5\<rparr>), [hello\<lparr>views := 5\<rparr>, draft, memo])"
proof -
  have none: "findById store other_id = None"
    by (simp add: findById_def example_defs)
  have some: "findById store hello_id = Some hello"
    by (simp add: findById_def example_defs)
  have v: "views hello = 3" by (simp add: hello_def)
  have p: "plus_one (views hello) = 4" by (simp add: v plus_one_def)
  have ok: "spec_schema (hello\<lparr>views := plus_one (views hello)\<rparr>)"
    by (simp add: spec_schema_def hello_def)
  note missing = get_blog_counts_views[of hex_cast other_param store spec_schema]
  note broken = get_blog_counts_views[of hex_cast bad_param store spec_schema]
  note found = get_blog_counts_views[of hex_cast hello_param store spec_schema]
  have 1: "get_blog hex_cast spec_schema store other_param = (Fail 404 ''Blog not found'' [], store)"
    using missing cast_other none by blast
  have 2: "get_blog hex_cast spec_schema store bad_param = (Fail 500 ''Server error'' [], store)"
    using broken cast_bad by blast
  have first: "get_blog hex_cast spec_schema store hello_param =
      (Json 200 (hello\<lparr>views := plus_one (views hello)\<rparr>),
       replace_doc (hello\<lparr>views := plus_one (views hello)\<rparr>) store)"
    using found cast_hello some ok by blast
  have st1: "replace_doc (hello\<lparr>views := 4\<rparr>) store = [hello\<lparr>views := 4\<rparr>, draft, memo]"
    by (simp add: example_defs)
  have first': "get_blog hex_cast spec_schema store hello_param
       = (Json 200 (hello\<lparr>views := 4\<rparr>), [hello\<lparr>views := 4\<rparr>, draft, memo])"
    using first p st1 by simp
  have second: "get_blog hex_cast spec_schema [hello\<lparr>views := 4\<rparr>, draft, memo] hello_param
       = (Json 200 (hello\<lparr>views := 5\<rparr>), [hello\<lparr>views := 5\<rparr>, draft, memo])"
    by (simp add: get_blog_def cast_hello findById_def save_def spec_schema_def plus_one_def
        Let_def example_defs)
  show ?thesis
    using cast_other cast_bad cast_hello none some v ok 1 2 first' second by simp
qed

section \<open>PUT /:id changes the fields of the body only\<close>

lemma apply_body_frame:
  "blog_id (apply_body body b) = blog_id b \<and> author (apply_body body b) = author b
   \<and> views (apply_body body b) = views b \<and> likes (apply_body body b) = likes b
   \<and> comments (apply_body body b) = comments b \<and> createdAt (apply_body body b) = createdAt b
   \<and> excerpt (apply_body body b) = excerpt b"
  by (simp add: apply_body_def Let_def split: option.splits)

lemma apply_body_fields:
  "title (apply_body body b) = (case b_title body of None \<Rightarrow> title b | Some t \<Rightarrow> t)
   \<and> content (apply_body body b) = (case b_content body of None \<Rightarrow> content b | Some c \<Rightarrow> c)
   \<and> tags (apply_body body b) = (case b_tags body of None \<Rightarrow> tags b | Some ts \<Rightarrow> ts)
   \<and> featuredImage (apply_body body b)
       = (case b_featuredImage body of None \<Rightarrow> featuredImage b | Some f \<Rightarrow> f)
   \<and> published (apply_body body b) = (case b_published body of None \<Rightarrow> published b | Some p \<Rightarrow> p)"
  by (simp add: apply_body_def Let_def split: option.splits)

lemma saved_author:
  assumes b: "findById st i = Some b" and id: "blog_id b' = blog_id b"
    and au: "author b' = author b" and x: "findById (replace_doc b' st) j = Some x"
  shows "\<exists>y. findById st j = Some y \<and> author y = author x"
proof (cases "j = i")
  case True
  then have "x = b'" using findById_saved[OF b id] x by simp
  then show ?thesis using b au True by simp
next
  case False
  have "findById st j = Some x" using findById_saved_other[OF b id False] x by simp
  then show ?thesis by blast
qed

lemma update_blog_Json:
  assumes "update_blog cast ok st uid i body = (Json c (m, b'), st')"
  shows "\<exists>j b. cast i = Some j \<and> findById st j = Some b \<and> author b = uid
           \<and> update_errors body = []
           \<and> b' = apply_body body b \<and> st' = replace_doc b' st \<and> c = 200 \<and> ok b'"
  using assms
  by (auto simp: update_blog_def save_def split: option.splits if_splits)

lemma like_blog_Json:
  assumes "like_blog cast ok st uid i = (Json c r, st')"
  shows "\<exists>j b b'. cast i = Some j \<and> findById st j = Some b
           \<and> b' = b\<lparr>likes := (if uid \<in> set (likes b) then filter (\<lambda>l. l \<noteq> uid) (likes b)
                               else likes b @ [uid])\<rparr>
           \<and> st' = replace_doc b' st \<and> c = 200 \<and> ok b'
           \<and> r = \<lparr>message = (if uid \<in> set (likes b) then ''Blog unliked'' else ''Blog liked''),
                   likes_count = length (likes b'), isLiked = (uid \<notin> set (likes b))\<rparr>"
  using assms
  by (auto simp: like_blog_def save_def Let_def split: option.splits if_splits)

lemma add_comment_Json:
  assumes "add_comment cast ok t st uid i x = (Json c r, st')"
  shows "\<exists>j b b'. cast i = Some j \<and> findById st j = Some b
           \<and> b' = b\<lparr>comments := comments b @ [\<lparr>c_user = uid, c_content = the x, c_createdAt = t\<rparr>]\<rparr>
           \<and> st' = replace_doc b' st"
  using assms
  by (auto simp: add_comment_def save_def Let_def split: option.splits if_splits)

text \<open>
  Claim C7. Every update that answers with a body answers 200, was asked by the
  author of the blog, and stores the returned blog under the id (the ObjectId that the
  parameter casts to). In that blog each of
  title, content, tags, featuredImage and published is the value of the body when the
  body has the field (an empty string and an empty array as they are given) and the
  previous value when it has not; id, author, views, likes, comments and creation time
  are the previous ones; every other document is as it was. The update of a valid body
  by the author does answer so when the save is accepted. No handler that saves a blog
  (update, single retrieval, like, comment) changes the author of any stored blog.
\<close>

theorem update_blog_frame:
  "(\<forall>c m b' st'. update_blog cast ok st uid i body = (Json c (m, b'), st') \<longrightarrow>
       c = 200 \<and>
       (\<exists>j b. cast i = Some j \<and> findById st' j = Some b'
          \<and> findById st j = Some b \<and> author b = uid
          \<and> title b' = (case b_title body of None \<Rightarrow> title b | Some t \<Rightarrow> t)
          \<and> content b' = (case b_content body of None \<Rightarrow> content b | Some c \<Rightarrow> c)
          \<and> tags b' = (case b_tags body of None \<Rightarrow> tags b | Some ts \<Rightarrow> ts)
          \<and> featuredImage b' = (case b_featuredImage body of None \<Rightarrow> featuredImage b | Some f \<Rightarrow> f)
          \<and> published b' = (case b_published body of None \<Rightarrow> published b | Some p \<Rightarrow> p)
          \<and> blog_id b' = blog_id b \<and> author b' = author b \<and> views b' = views b
          \<and> likes b' = likes b \<and> comments b' = comments b \<and> createdAt b' = createdAt b
          \<and> (\<forall>k. k \<noteq> j \<longrightarrow> findById st' k = findById st k)))
   \<and> (\<forall>j b. update_errors body = [] \<and> cast i = Some j \<and> findById st j = Some b
          \<and> author b = uid \<and> ok (apply_body body b) \<longrightarrow>
        update_blog cast ok st uid i body =
          (Json 200 (''Blog updated successfully'', apply_body body b),
           replace_doc (apply_body body b) st))
   \<and> (\<forall>r st' k x. findById st' k = Some x \<and>
          (update_blog cast ok st uid i body = (r, st') \<or> get_blog cast ok st i = (r', st')
           \<or> like_blog cast ok st uid i = (r'', st')
           \<or> add_comment cast ok t st uid i text = (r''', st')) \<longrightarrow>
        (\<exists>y. findById st k = Some y \<and> author y = author x))"
proof (intro conjI allI impI)
  fix c m b' st'
  assume a: "update_blog cast ok st uid i body = (Json c (m, b'), st')"
  from update_blog_Json[OF a] obtain j b where j: "cast i = Some j"
    and b: "findById st j = Some b" "author b = uid"
    "b' = apply_body body b" "st' = replace_doc b' st" "c = 200" by blast
  have id: "blog_id b' = blog_id b" using b(3) apply_body_frame by simp
  show "c = 200" by (rule b(5))
  have saved: "findById st' j = Some b'" using findById_saved[OF b(1) id] b(4) by simp
  have others: "\<forall>k. k \<noteq> j \<longrightarrow> findById st' k = findById st k"
    using findById_saved_other[OF b(1) id] b(4) by simp
  have fields: "title b' = (case b_title body of None \<Rightarrow> title b | Some t \<Rightarrow> t)
          \<and> content b' = (case b_content body of None \<Rightarrow> content b | Some c \<Rightarrow> c)
          \<and> tags b' = (case b_tags body of None \<Rightarrow> tags b | Some ts \<Rightarrow> ts)
          \<and> featuredImage b' = (case b_featuredImage body of None \<Rightarrow> featuredImage b | Some f \<Rightarrow> f)
          \<and> published b' = (case b_published body of None \<Rightarrow> published b | Some p \<Rightarrow> p)
          \<and> blog_id b' = blog_id b \<and> author b' = author b \<and> views b' = views b
          \<and> likes b' = likes b \<and> comments b' = comments b \<and> createdAt b' = createdAt b"
    using b(3) apply_body_frame[of body b] apply_body_fields[of body b] by simp
  show "\<exists>j b. cast i = Some j \<and> findById st' j = Some b'
          \<and> findById st j = Some b \<and> author b = uid
          \<and> title b' = (case b_title body of None \<Rightarrow> title b | Some t \<Rightarrow> t)
          \<and> content b' = (case b_content body of None \<Rightarrow> content b | Some c \<Rightarrow> c)
          \<and> tags b' = (case b_tags body of None \<Rightarrow> tags b | Some ts \<Rightarrow> ts)
          \<and> featuredImage b' = (case b_featuredImage body of None \<Rightarrow> featuredImage b | Some f \<Rightarrow> f)
          \<and> published b' = (case b_published body of None \<Rightarrow> published b | Some p \<Rightarrow> p)
          \<and> blog_id b' = blog_id b \<and> author b' = author b \<and> views b' = views b
          \<and> likes b' = likes b \<and> comments b' = comments b \<and> createdAt b' = createdAt b
          \<and> (\<forall>k. k \<noteq> j \<longrightarrow> findById st' k = findById st k)"
    using j saved b(1,2) fields others by blast
next
  fix j b
  assume "update_errors body = [] \<and> cast i = Some j \<and> findById st j = Some b
          \<and> author b = uid \<and> ok (apply_body body b)"
  then show "update_blog cast ok st uid i body =
          (Json 200 (''Blog updated successfully'', apply_body body b),
           replace_doc (apply_body body b) st)"
    by (simp add: update_blog_def save_def)
next
  fix r st' k x
  assume a: "findById st' k = Some x \<and>
          (update_blog cast ok st uid i body = (r, st') \<or> get_blog cast ok st i = (r', st')
           \<or> like_blog cast ok st uid i = (r'', st')
           \<or> add_comment cast ok t st uid i text = (r''', st'))"
  then have x: "findById st' k = Some x" by simp
  from a consider
      (u) "update_blog cast ok st uid i body = (r, st')"
    | (g) "get_blog cast ok st i = (r', st')"
    | (l) "like_blog cast ok st uid i = (r'', st')"
    | (c) "add_comment cast ok t st uid i text = (r''', st')" by blast
  then show "\<exists>y. findById st k = Some y \<and> author y = author x"
  proof cases
    case u
    show ?thesis
    proof (cases r)
      case (Json c p)
      obtain m b' where p: "p = (m, b')" by (cases p)
      from update_blog_Json[OF u[unfolded Json p]] obtain j b where b: "findById st j = Some b"
        "b' = apply_body body b" "st' = replace_doc b' st" by blast
      show ?thesis
        using saved_author[OF b(1), of b' k x] b(2,3) x apply_body_frame[of body b] by simp
    next
      case (Fail c m es)
      then have "st' = st" using u
        by (auto simp: update_blog_def save_def split: option.splits if_splits)
      then show ?thesis using x by simp
    qed
  next
    case g
    show ?thesis
    proof (cases r')
      case (Json c b')
      from get_blog_Json[OF g[unfolded Json]] obtain j b where b: "findById st j = Some b"
        "b' = b\<lparr>views := plus_one (views b)\<rparr>" "st' = replace_doc b' st" by blast
      show ?thesis using saved_author[OF b(1), of b' k x] b(2,3) x by simp
    next
      case (Fail c m es)
      then have "st' = st" using g
        by (auto simp: get_blog_def save_def Let_def split: option.splits if_splits)
      then show ?thesis using x by simp
    qed
  next
    case l
    show ?thesis
    proof (cases r'')
      case (Json c p)
      from like_blog_Json[OF l[unfolded Json]] obtain j b b' where b: "findById st j = Some b"
        "b' = b\<lparr>likes := (if uid \<in> set (likes b) then filter (\<lambda>l. l \<noteq> uid) (likes b)
                               else likes b @ [uid])\<rparr>" "st' = replace_doc b' st" by blast
      show ?thesis using saved_author[OF b(1), of b' k x] b(2,3) x by simp
    next
      case (Fail c m es)
      then have "st' = st" using l
        by (auto simp: like_blog_def save_def Let_def split: option.splits if_splits)
      then show ?thesis using x by simp
    qed
  next
    case c
    show ?thesis
    proof (cases r''')
      case (Json n p)
      from add_comment_Json[OF c[unfolded Json]] obtain j b b' where b: "findById st j = Some b"
        "b' = b\<lparr>comments := comments b @ [\<lparr>c_user = uid, c_content = the text, c_createdAt = t\<rparr>]\<rparr>"
        "st' = replace_doc b' st" by blast
      show ?thesis using saved_author[OF b(1), of b' k x] b(2,3) x by simp
    next
      case (Fail n m es)
      then have "st' = st" using c
        by (auto simp: add_comment_def save_def Let_def split: option.splits if_splits)
      then show ?thesis using x by simp
    qed
  qed
qed

theorem update_blog_frame_witness:
  "update_errors retag = []
   \<and> hex_cast hello_param = Some hello_id
   \<and> findById store hello_id = Some hello
   \<and> author hello = ann
   \<and> spec_schema (apply_body retag hello)
   \<and> update_blog hex_cast spec_schema store ann hello_param retag =
       (Json 200 (''Blog updated successfully'',
                  hello\<lparr>tags := [], featuredImage := [], published := False\<rparr>),
        [hello\<lparr>tags := [], featuredImage := [], published := False\<rparr>, draft, memo])
   \<and> title (apply_body retag hello) = ''Hello''
   \<and> content (apply_body retag hello) = ''World''
   \<and> tags (apply_body retag hello) = []
   \<and> views (apply_body retag hello) = 3
   \<and> likes (apply_body retag hello) = [bob]"
proof -
  have v: "update_errors retag = []"
    by (simp add: update_errors_def retag_def)
  have f: "findById store hello_id = Some hello"
    by (simp add: findById_def example_defs)
  have a: "author hello = ann"
    by (simp add: hello_def)
  have b: "apply_body retag hello = hello\<lparr>tags := [], featuredImage := [], published := False\<rparr>"
    by (simp add: apply_body_def retag_def)
  have ok: "spec_schema (apply_body retag hello)"
    unfolding b by (simp add: spec_schema_def hello_def)
  have st: "replace_doc (apply_body retag hello) store
      = [hello\<lparr>tags := [], featuredImage := [], published := False\<rparr>, draft, memo]"
    unfolding b by (simp add: example_defs)
  have u: "update_blog hex_cast spec_schema store ann hello_param retag =
      (Json 200 (''Blog updated successfully'', apply_body retag hello),
       replace_doc (apply_body retag hello) store)"
    using update_blog_frame[of hex_cast spec_schema store ann hello_param retag]
      v cast_hello f a ok by blast
  have fields: "title (apply_body retag hello) = ''Hello''
      \<and> content (apply_body retag hello) = ''World''
      \<and> tags (apply_body retag hello) = []
      \<and> views (apply_body retag hello) = 3
      \<and> likes (apply_body retag hello) = [bob]"
    unfolding b by (simp add: hello_def)
  show ?thesis using v cast_hello f a ok u fields unfolding st by (simp add: b)
qed

section \<open>PUT /:id and DELETE /:id: existence, then ownership\<close>

text \<open>
  Claim C1, as the claim states it, fails twice. The validation of an update comes
  first: an update whose body does not pass it, of an id that no blog has, is answered
  400, not 404. And the lookup casts the id: a delete of an id that is no ObjectId,
  which no blog has, is answered 500, not 404.
\<close>

theorem update_400_delete_500:
  "hex_cast other_param = Some other_id
   \<and> findById store other_id = None
   \<and> update_blog hex_cast spec_schema store bob other_param blank
       = (Fail 400 ''Validation failed'' [''Content cannot be empty''], store)
   \<and> find (\<lambda>b. blog_id b = ObjectId bad_param) store = None
   \<and> delete_blog hex_cast store bob bad_param = (Fail 500 ''Server error'' [], store)"
proof -
  have "findById store other_id = None"
    by (simp add: findById_def example_defs)
  moreover have "update_blog hex_cast spec_schema store bob other_param blank
       = (Fail 400 ''Validation failed'' [''Content cannot be empty''], store)"
    by (simp add: update_blog_def update_errors_def blank_def)
  moreover have "find (\<lambda>b. blog_id b = ObjectId bad_param) store = None"
    by (simp add: bad_param_def example_defs)
  moreover have "delete_blog hex_cast store bob bad_param = (Fail 500 ''Server error'' [], store)"
    by (simp add: delete_blog_def cast_bad)
  ultimately show ?thesis using cast_other by simp
qed

text \<open>
  Claim C1, amended. An update whose body does not pass the validation is answered 400,
  before any other check. For every delete, and for every update whose body passes the
  validation: when the id does not cast to an ObjectId the answer is 500; when it casts
  to an ObjectId that no blog has the answer is 404, whoever asks; when the blog exists
  and its author is not the requester the answer is 403; in all these cases the store is
  as it was. The existence check comes first, so a requester who owns nothing gets 404
  on an id that no blog has. A store that differs after the call, and an answer 200,
  are those of a request by the author of an existing blog; the author's delete is
  answered 200 and removes the blog.
\<close>

theorem update_delete_guards:
  "(update_errors body \<noteq> [] \<longrightarrow>
      update_blog cast ok st uid i body
        = (Fail 400 ''Validation failed'' (update_errors body), st))
   \<and> (update_errors body = [] \<longrightarrow>
      (cast i = None \<longrightarrow>
         update_blog cast ok st uid i body = (Fail 500 ''Server error'' [], st)) \<and>
      (\<forall>j. cast i = Some j \<and> findById st j = None \<longrightarrow>
         update_blog cast ok st uid i body = (Fail 404 ''Blog not found'' [], st)) \<and>
      (\<forall>j b. cast i = Some j \<and> findById st j = Some b \<and> author b \<noteq> uid \<longrightarrow>
         update_blog cast ok st uid i body
           = (Fail 403 ''Not authorized to update this blog'' [], st)))
   \<and> (cast i = None \<longrightarrow> delete_blog cast st uid i = (Fail 500 ''Server error'' [], st))
   \<and> (\<forall>j. cast i = Some j \<and> findById st j = None \<longrightarrow>
         delete_blog cast st uid i = (Fail 404 ''Blog not found'' [], st))
   \<and> (\<forall>j b. cast i = Some j \<and> findById st j = Some b \<and> author b \<noteq> uid \<longrightarrow>
         delete_blog cast st uid i
           = (Fail 403 ''Not authorized to delete this blog'' [], st))
   \<and> (snd (update_blog cast ok st uid i body) \<noteq> st
        \<or> status (fst (update_blog cast ok st uid i body)) = 200 \<longrightarrow>
         (\<exists>j b. cast i = Some j \<and> findById st j = Some b \<and> author b = uid))
   \<and> (snd (delete_blog cast st uid i) \<noteq> st
        \<or> status (fst (delete_blog cast st uid i)) = 200 \<longrightarrow>
         (\<exists>j b. cast i = Some j \<and> findById st j = Some b \<and> author b = uid))
   \<and> (\<forall>j b. cast i = Some j \<and> findById st j = Some b \<and> author b = uid \<longrightarrow>
         delete_blog cast st uid i
           = (Json 200 ''Blog deleted successfully'', delete_doc j st))"
  by (auto simp: update_blog_def delete_blog_def split: option.splits if_splits)

theorem update_delete_guards_witness:
  "update_errors blank \<noteq> []
   \<and> update_blog hex_cast spec_schema store ann hello_param blank
       = (Fail 400 ''Validation failed'' [''Content cannot be empty''], store)
   \<and> update_errors retitle = []
   \<and> hex_cast bad_param = None
   \<and> update_blog hex_cast spec_schema store bob bad_param retitle
       = (Fail 500 ''Server error'' [], store)
   \<and> delete_blog hex_cast store bob bad_param = (Fail 500 ''Server error'' [], store)
   \<and> hex_cast other_param = Some other_id
   \<and> findById store other_id = None
   \<and> update_blog hex_cast spec_schema store bob other_param retitle
       = (Fail 404 ''Blog not found'' [], store)
   \<and> delete_blog hex_cast store bob other_param = (Fail 404 ''Blog not found'' [], store)
   \<and> hex_cast hello_param = Some hello_id
   \<and> findById store hello_id = Some hello
   \<and> author hello \<noteq> bob
   \<and> update_blog hex_cast spec_schema store bob hello_param retitle
       = (Fail 403 ''Not authorized to update this blog'' [], store)
   \<and> delete_blog hex_cast store bob hello_param
       = (Fail 403 ''Not authorized to delete this blog'' [], store)
   \<and> author hello = ann
   \<and> delete_blog hex_cast store ann hello_param
       = (Json 200 ''Blog deleted successfully'', [draft, memo])"
proof -
  have e: "update_errors blank = [''Content cannot be empty'']"
    by (simp add: update_errors_def blank_def)
  have v: "update_errors retitle = []"
    by (simp add: update_errors_def retitle_def)
  have n: "findById store other_id = None"
    by (simp add: findById_def example_defs)
  have f: "findById store hello_id = Some hello"
    by (simp add: findById_def example_defs)
  have a: "author hello \<noteq> bob" "author hello = ann"
    by (simp_all add: example_defs)
  have d: "delete_doc hello_id store = [draft, memo]"
    by (simp add: example_defs)
  note invalid = update_delete_guards[of blank hex_cast spec_schema store ann hello_param]
  note broken = update_delete_guards[of retitle hex_cast spec_schema store bob bad_param]
  note missing = update_delete_guards[of retitle hex_cast spec_schema store bob other_param]
  note foreign = update_delete_guards[of retitle hex_cast spec_schema store bob hello_param]
  note own = update_delete_guards[of retitle hex_cast spec_schema store ann hello_param]
  have 0: "update_blog hex_cast spec_schema store ann hello_param blank
       = (Fail 400 ''Validation failed'' [''Content cannot be empty''], store)"
    using invalid e by simp
  have 1: "update_blog hex_cast spec_schema store bob bad_param retitle
       = (Fail 500 ''Server error'' [], store)"
    using broken v cast_bad by blast
  have 2: "delete_blog hex_cast store bob bad_param = (Fail 500 ''Server error'' [], store)"
    using broken cast_bad by blast
  have 3: "update_blog hex_cast spec_schema store bob other_param retitle
       = (Fail 404 ''Blog not found'' [], store)"
    using missing v cast_other n by blast
  have 4: "delete_blog hex_cast store bob other_param = (Fail 404 ''Blog not found'' [], store)"
    using missing cast_other n by blast
  have 5: "update_blog hex_cast spec_schema store bob hello_param retitle
       = (Fail 403 ''Not authorized to update this blog'' [], store)"
    using foreign v cast_hello f a(1) by blast
  have 6: "delete_blog hex_cast store bob hello_param
       = (Fail 403 ''Not authorized to delete this blog'' [], store)"
    using foreign cast_hello f a(1) by blast
  have 7: "delete_blog hex_cast store ann hello_param
       = (Json 200 ''Blog deleted successfully'', delete_doc hello_id store)"
    using own cast_hello f a(2) by blast
  show ?thesis
    using e v cast_bad cast_other cast_hello n f a 0 1 2 3 4 5 6 7 unfolding d by simp
qed

section \<open>POST /:id/like toggles\<close>

lemma length_filter_distinct:
  "distinct ls \<Longrightarrow> u \<in> set ls \<Longrightarrow> Suc (length (filter (\<lambda>l. l \<noteq> u) ls)) = length ls"
proof (induction ls)
  case Nil
  then show ?case by simp
next
  case (Cons a ls)
  show ?case
  proof (cases "a = u")
    case True
    then have "u \<notin> set ls" using Cons.prems by simp
    then have "filter (\<lambda>l. l \<noteq> u) ls = ls" by (auto simp: filter_id_conv)
    then show ?thesis using True by simp
  next
    case False
    then show ?thesis using Cons by simp
  qed
qed

lemma filter_absent: "u \<notin> set ls \<Longrightarrow> filter (\<lambda>l. l \<noteq> u) ls = ls"
  by (auto simp: filter_id_conv)

lemma like_blog_step:
  assumes "like_blog cast ok st uid i = (Json c r, st1)"
  shows "c = 200 \<and>
    (\<exists>j b b1. cast i = Some j \<and> findById st j = Some b \<and> findById st1 j = Some b1
       \<and> likes b1 = (if uid \<in> set (likes b) then filter (\<lambda>l. l \<noteq> uid) (likes b)
                     else likes b @ [uid])
       \<and> b1 = b\<lparr>likes := likes b1\<rparr>
       \<and> isLiked r = (uid \<in> set (likes b1)) \<and> likes_count r = length (likes b1)
       \<and> (distinct (likes b) \<longrightarrow> distinct (likes b1)))"
proof -
  from like_blog_Json[OF assms] obtain j b b' where j: "cast i = Some j"
    and b: "findById st j = Some b"
    and b': "b' = b\<lparr>likes := (if uid \<in> set (likes b) then filter (\<lambda>l. l \<noteq> uid) (likes b)
                               else likes b @ [uid])\<rparr>"
    and st1: "st1 = replace_doc b' st" and c: "c = 200"
    and r: "r = \<lparr>message = (if uid \<in> set (likes b) then ''Blog unliked'' else ''Blog liked''),
                 likes_count = length (likes b'), isLiked = (uid \<notin> set (likes b))\<rparr>"
    by blast
  have id: "blog_id b' = blog_id b" using b' by simp
  have f1: "findById st1 j = Some b'" using findById_saved[OF b id] st1 by simp
  have l: "likes b' = (if uid \<in> set (likes b) then filter (\<lambda>l. l \<noteq> uid) (likes b)
                     else likes b @ [uid])" using b' by simp
  have m: "isLiked r = (uid \<in> set (likes b'))" using r l by simp
  have n: "likes_count r = length (likes b')" using r by simp
  have d: "distinct (likes b) \<longrightarrow> distinct (likes b')" using l by simp
  have e: "b' = b\<lparr>likes := likes b'\<rparr>" using b' by simp
  show ?thesis using c j b f1 l e m n d by blast
qed

lemma like_blog_keeps_distinct:
  assumes "findById st j = Some b" and "distinct (likes b)" and "cast i = Some j"
  shows "\<exists>b'. findById (snd (like_blog cast ok st u i)) j = Some b' \<and> distinct (likes b')"
proof (cases "like_blog cast ok st u i")
  case (Pair r st1)
  show ?thesis
  proof (cases r)
    case (Json c p)
    from like_blog_step[OF Pair[unfolded Json]] assms show ?thesis
      using Pair by auto
  next
    case (Fail c m es)
    then have "st1 = st" using Pair
      by (auto simp: like_blog_def save_def Let_def split: option.splits if_splits)
    then show ?thesis using Pair assms by simp
  qed
qed

lemma like_all_keeps_distinct:
  "findById st j = Some b \<Longrightarrow> distinct (likes b) \<Longrightarrow> cast i = Some j \<Longrightarrow>
   \<exists>b'. findById (like_all cast ok st i us) j = Some b' \<and> distinct (likes b')"
proof (induction us arbitrary: st b)
  case Nil
  then show ?case by simp
next
  case (Cons u us)
  from like_blog_keeps_distinct[where cast = cast and ok = ok and u = u, OF Cons.prems] obtain b1
    where "findById (snd (like_blog cast ok st u i)) j = Some b1" "distinct (likes b1)" by blast
  from Cons.IH[OF this Cons.prems(3)] show ?case by simp
qed

lemma set_replace_doc: "x \<in> set (replace_doc b st) \<Longrightarrow> x = b \<or> x \<in> set st"
  by (induction st) (auto split: if_splits)

lemma set_delete_doc: "x \<in> set (delete_doc i st) \<Longrightarrow> x \<in> set st"
  by (induction st) (auto split: if_splits)

lemma saved_likes:
  assumes "\<forall>x \<in> set st. distinct (likes x)" and "distinct (likes b')"
  shows "\<forall>x \<in> set (replace_doc b' st). distinct (likes x)"
  using assms set_replace_doc by blast

lemma create_blog_store:
  "snd (create_blog ok f st uid body) = st
   \<or> snd (create_blog ok f st uid body) = st @ [new_blog f uid body]"
  by (simp add: create_blog_def insert_doc_def)

lemma update_blog_store:
  "snd (update_blog cast ok st uid i body) = st
   \<or> (\<exists>j b. findById st j = Some b
         \<and> snd (update_blog cast ok st uid i body) = replace_doc (apply_body body b) st)"
  by (auto simp: update_blog_def save_def split: option.splits)

lemma get_blog_store:
  "snd (get_blog cast ok st i) = st
   \<or> (\<exists>j b. findById st j = Some b
         \<and> snd (get_blog cast ok st i) = replace_doc (b\<lparr>views := plus_one (views b)\<rparr>) st)"
  by (auto simp: get_blog_def save_def Let_def split: option.splits)

lemma like_blog_store:
  "snd (like_blog cast ok st uid i) = st
   \<or> (\<exists>j b. findById st j = Some b
         \<and> snd (like_blog cast ok st uid i)
             = replace_doc (b\<lparr>likes := (if uid \<in> set (likes b)
                                        then filter (\<lambda>l. l \<noteq> uid) (likes b)
                                        else likes b @ [uid])\<rparr>) st)"
  by (auto simp: like_blog_def save_def Let_def split: option.splits)

lemma add_comment_store:
  "snd (add_comment cast ok t st uid i x) = st
   \<or> (\<exists>j b c. findById st j = Some b
         \<and> snd (add_comment cast ok t st uid i x) = replace_doc (b\<lparr>comments := comments b @ [c]\<rparr>) st)"
  by (auto simp: add_comment_def save_def Let_def split: option.splits)

lemma delete_blog_store:
  "snd (delete_blog cast st uid i) = st
   \<or> (\<exists>j. snd (delete_blog cast st uid i) = delete_doc j st)"
  by (auto simp: delete_blog_def split: option.splits)

lemma reachable_likes: "reachable cast ok st \<Longrightarrow> \<forall>b \<in> set st. distinct (likes b)"
proof (induction rule: reachable.induct)
  case start
  then show ?case by simp
next
  case (created st f uid body)
  then show ?case using create_blog_store[of ok f st uid body]
    by (auto simp: new_blog_def)
next
  case (updated st uid i body)
  from update_blog_store[of cast ok st uid i body] show ?case
  proof
    assume "snd (update_blog cast ok st uid i body) = st"
    then show ?thesis using updated.IH by simp
  next
    assume "\<exists>j b. findById st j = Some b
         \<and> snd (update_blog cast ok st uid i body) = replace_doc (apply_body body b) st"
    then obtain j b where b: "findById st j = Some b"
      "snd (update_blog cast ok st uid i body) = replace_doc (apply_body body b) st" by blast
    have "distinct (likes (apply_body body b))"
      using findById_mem[OF b(1)] updated.IH apply_body_frame[of body b] by simp
    then show ?thesis unfolding b(2) by (rule saved_likes[OF updated.IH])
  qed
next
  case (deleted st uid i)
  then show ?case using delete_blog_store[of cast st uid i] set_delete_doc by metis
next
  case (viewed st i)
  from get_blog_store[of cast ok st i] show ?case
  proof
    assume "snd (get_blog cast ok st i) = st"
    then show ?thesis using viewed.IH by simp
  next
    assume "\<exists>j b. findById st j = Some b
         \<and> snd (get_blog cast ok st i) = replace_doc (b\<lparr>views := plus_one (views b)\<rparr>) st"
    then obtain j b where b: "findById st j = Some b"
      "snd (get_blog cast ok st i) = replace_doc (b\<lparr>views := plus_one (views b)\<rparr>) st" by blast
    have "distinct (likes (b\<lparr>views := plus_one (views b)\<rparr>))"
      using findById_mem[OF b(1)] viewed.IH by simp
    then show ?thesis unfolding b(2) by (rule saved_likes[OF viewed.IH])
  qed
next
  case (liked st uid i)
  from like_blog_store[of cast ok st uid i] show ?case
  proof
    assume "snd (like_blog cast ok st uid i) = st"
    then show ?thesis using liked.IH by simp
  next
    assume "\<exists>j b. findById st j = Some b
         \<and> snd (like_blog cast ok st uid i)
             = replace_doc (b\<lparr>likes := (if uid \<in> set (likes b)
                                        then filter (\<lambda>l. l \<noteq> uid) (likes b)
                                        else likes b @ [uid])\<rparr>) st"
    then obtain j b where b: "findById st j = Some b"
      "snd (like_blog cast ok st uid i)
             = replace_doc (b\<lparr>likes := (if uid \<in> set (likes b)
                                        then filter (\<lambda>l. l \<noteq> uid) (likes b)
                                        else likes b @ [uid])\<rparr>) st" by blast
    have "distinct (likes b)" using findById_mem[OF b(1)] liked.IH by simp
    then have "distinct (likes (b\<lparr>likes := (if uid \<in> set (likes b)
                                        then filter (\<lambda>l. l \<noteq> uid) (likes b)
                                        else likes b @ [uid])\<rparr>))" by simp
    then show ?thesis unfolding b(2) by (rule saved_likes[OF liked.IH])
  qed
next
  case (commented st t uid i x)
  from add_comment_store[of cast ok t st uid i x] show ?case
  proof
    assume "snd (add_comment cast ok t st uid i x) = st"
    then show ?thesis using commented.IH by simp
  next
    assume "\<exists>j b c. findById st j = Some b
         \<and> snd (add_comment cast ok t st uid i x) = replace_doc (b\<lparr>comments := comments b @ [c]\<rparr>) st"
    then obtain j b c where b: "findById st j = Some b"
      "snd (add_comment cast ok t st uid i x) = replace_doc (b\<lparr>comments := comments b @ [c]\<rparr>) st"
      by blast
    have "distinct (likes (b\<lparr>comments := comments b @ [c]\<rparr>))"
      using findById_mem[OF b(1)] commented.IH by simp
    then show ?thesis unfolding b(2) by (rule saved_likes[OF commented.IH])
  qed
qed

text \<open>
  Claim C2. A like request that answers with a body answers 200 and stores the blog
  with its likes toggled: without the requester when the likes had the requester, with
  the requester appended when they had not; nothing else of the blog changes. The
  answer's \<open>isLiked\<close> is the requester's membership in the new likes and its
  \<open>likes\<close> is their number. Likes that hold each id at most once still do after the
  request, and after any sequence of like requests; a new blog has no like, and in
  every store that the handlers can make of the empty collection the likes of every
  blog hold each id at most once. On such likes, two requests of the same requester in
  sequence give back the set of the likes and their number, and the second answer
  undoes the first. The request on an existing blog does answer 200 when the save is
  accepted; on an id that casts to an ObjectId that no blog has it answers 404, and on
  an id that does not cast it answers 500.
\<close>

theorem like_blog_toggles:
  "(\<forall>c r st1. like_blog cast ok st uid i = (Json c r, st1) \<longrightarrow>
      c = 200 \<and>
      (\<exists>j b b1. cast i = Some j \<and> findById st j = Some b \<and> findById st1 j = Some b1
         \<and> likes b1 = (if uid \<in> set (likes b) then filter (\<lambda>l. l \<noteq> uid) (likes b)
                       else likes b @ [uid])
         \<and> b1 = b\<lparr>likes := likes b1\<rparr>
         \<and> isLiked r = (uid \<in> set (likes b1)) \<and> likes_count r = length (likes b1)
         \<and> (distinct (likes b) \<longrightarrow> distinct (likes b1))))
   \<and> (\<forall>j b c1 r1 st1 c2 r2 st2.
        cast i = Some j \<and> findById st j = Some b
        \<and> (distinct (likes b) \<or> reachable cast ok st)
        \<and> like_blog cast ok st uid i = (Json c1 r1, st1)
        \<and> like_blog cast ok st1 uid i = (Json c2 r2, st2) \<longrightarrow>
        (\<exists>b2. findById st2 j = Some b2 \<and> set (likes b2) = set (likes b)
           \<and> length (likes b2) = length (likes b) \<and> distinct (likes b2)
           \<and> isLiked r2 = (\<not> isLiked r1) \<and> likes_count r2 = length (likes b)))
   \<and> (\<forall>j b. cast i = Some j \<and> findById st j = Some b
          \<and> ok (b\<lparr>likes := (if uid \<in> set (likes b) then filter (\<lambda>l. l \<noteq> uid) (likes b)
                              else likes b @ [uid])\<rparr>) \<longrightarrow>
        (\<exists>r st1. like_blog cast ok st uid i = (Json 200 r, st1)))
   \<and> (\<forall>j. cast i = Some j \<and> findById st j = None \<longrightarrow>
        like_blog cast ok st uid i = (Fail 404 ''Blog not found'' [], st))
   \<and> (cast i = None \<longrightarrow> like_blog cast ok st uid i = (Fail 500 ''Server error'' [], st))
   \<and> (\<forall>j b us. cast i = Some j \<and> findById st j = Some b \<and> distinct (likes b) \<longrightarrow>
        (\<exists>b'. findById (like_all cast ok st i us) j = Some b' \<and> distinct (likes b')))
   \<and> (\<forall>b. reachable cast ok st \<and> b \<in> set st \<longrightarrow> distinct (likes b))
   \<and> likes (new_blog f uid body) = []"
proof (intro conjI allI impI)
  fix c r st1
  assume a: "like_blog cast ok st uid i = (Json c r, st1)"
  show "c = 200" using like_blog_step[OF a] by simp
  show "\<exists>j b b1. cast i = Some j \<and> findById st j = Some b \<and> findById st1 j = Some b1
         \<and> likes b1 = (if uid \<in> set (likes b) then filter (\<lambda>l. l \<noteq> uid) (likes b)
                       else likes b @ [uid])
         \<and> b1 = b\<lparr>likes := likes b1\<rparr>
         \<and> isLiked r = (uid \<in> set (likes b1)) \<and> likes_count r = length (likes b1)
         \<and> (distinct (likes b) \<longrightarrow> distinct (likes b1))"
    using like_blog_step[OF a] by simp
next
  fix j b c1 r1 st1 c2 r2 st2
  assume a: "cast i = Some j \<and> findById st j = Some b
        \<and> (distinct (likes b) \<or> reachable cast ok st)
        \<and> like_blog cast ok st uid i = (Json c1 r1, st1)
        \<and> like_blog cast ok st1 uid i = (Json c2 r2, st2)"
  then have j: "cast i = Some j" and b: "findById st j = Some b"
    and d: "distinct (likes b)" using reachable_likes findById_mem by blast+
  from a have s1: "like_blog cast ok st uid i = (Json c1 r1, st1)"
    and s2: "like_blog cast ok st1 uid i = (Json c2 r2, st2)" by simp_all
  from like_blog_step[OF s1] j b obtain b1 where b1: "findById st1 j = Some b1"
    and l1: "likes b1 = (if uid \<in> set (likes b) then filter (\<lambda>l. l \<noteq> uid) (likes b)
                       else likes b @ [uid])"
    and m1: "isLiked r1 = (uid \<in> set (likes b1))" by auto
  from like_blog_step[OF s2] j b1 obtain b2 where b2: "findById st2 j = Some b2"
    and l2: "likes b2 = (if uid \<in> set (likes b1) then filter (\<lambda>l. l \<noteq> uid) (likes b1)
                       else likes b1 @ [uid])"
    and m2: "isLiked r2 = (uid \<in> set (likes b2))"
    and n2: "likes_count r2 = length (likes b2)" by auto
  have restored: "set (likes b2) = set (likes b) \<and> length (likes b2) = length (likes b)
      \<and> distinct (likes b2) \<and> (uid \<in> set (likes b2)) = (uid \<notin> set (likes b1))"
  proof (cases "uid \<in> set (likes b)")
    case True
    then have 1: "likes b1 = filter (\<lambda>l. l \<noteq> uid) (likes b)" using l1 by simp
    then have "uid \<notin> set (likes b1)" by simp
    then have 2: "likes b2 = filter (\<lambda>l. l \<noteq> uid) (likes b) @ [uid]" using l2 1 by simp
    have "set (likes b2) = set (likes b)" using 2 True by auto
    moreover have "length (likes b2) = length (likes b)"
      using 2 length_filter_distinct[OF d True] by simp
    moreover have "distinct (likes b2)" using 2 d by simp
    moreover have "uid \<in> set (likes b2)" using 2 by simp
    ultimately show ?thesis using \<open>uid \<notin> set (likes b1)\<close> by simp
  next
    case False
    then have 1: "likes b1 = likes b @ [uid]" using l1 by simp
    then have in1: "uid \<in> set (likes b1)" by simp
    then have "likes b2 = filter (\<lambda>l. l \<noteq> uid) (likes b @ [uid])" using l2 1 by simp
    then have 2: "likes b2 = likes b" using filter_absent[OF False] by simp
    show ?thesis using 2 d False in1 by simp
  qed
  show "\<exists>b2. findById st2 j = Some b2 \<and> set (likes b2) = set (likes b)
           \<and> length (likes b2) = length (likes b) \<and> distinct (likes b2)
           \<and> isLiked r2 = (\<not> isLiked r1) \<and> likes_count r2 = length (likes b)"
    using b2 restored m1 m2 n2 by auto
next
  fix j b
  assume "cast i = Some j \<and> findById st j = Some b
          \<and> ok (b\<lparr>likes := (if uid \<in> set (likes b) then filter (\<lambda>l. l \<noteq> uid) (likes b)
                              else likes b @ [uid])\<rparr>)"
  then show "\<exists>r st1. like_blog cast ok st uid i = (Json 200 r, st1)"
    by (auto simp: like_blog_def save_def Let_def)
next
  fix j
  assume "cast i = Some j \<and> findById st j = None"
  then show "like_blog cast ok st uid i = (Fail 404 ''Blog not found'' [], st)"
    by (simp add: like_blog_def)
next
  assume "cast i = None"
  then show "like_blog cast ok st uid i = (Fail 500 ''Server error'' [], st)"
    by (simp add: like_blog_def)
next
  fix j b us
  assume "cast i = Some j \<and> findById st j = Some b \<and> distinct (likes b)"
  then show "\<exists>b'. findById (like_all cast ok st i us) j = Some b' \<and> distinct (likes b')"
    using like_all_keeps_distinct by blast
next
  fix b
  assume "reachable cast ok st \<and> b \<in> set st"
  then show "distinct (likes b)" using reachable_likes by blast
next
  show "likes (new_blog f uid body) = []" by (simp add: new_blog_def)
qed

theorem like_blog_toggles_witness:
  "hex_cast hello_param = Some hello_id
   \<and> findById store hello_id = Some hello
   \<and> distinct (likes hello)
   \<and> likes hello = [bob]
   \<and> like_blog hex_cast spec_schema store bob hello_param
       = (Json 200 \<lparr>message = ''Blog unliked'', likes_count = 0, isLiked = False\<rparr>,
          [hello\<lparr>likes := []\<rparr>, draft, memo])
   \<and> like_blog hex_cast spec_schema [hello\<lparr>likes := []\<rparr>, draft, memo] bob hello_param
       = (Json 200 \<lparr>message = ''Blog liked'', likes_count = 1, isLiked = True\<rparr>, store)
   \<and> like_blog hex_cast spec_schema store ann hello_param
       = (Json 200 \<lparr>message = ''Blog liked'', likes_count = 2, isLiked = True\<rparr>,
          [hello\<lparr>likes := [bob, ann]\<rparr>, draft, memo])
   \<and> (\<exists>b2. findById store hello_id = Some b2 \<and> set (likes b2) = set (likes hello)
         \<and> length (likes b2) = length (likes hello) \<and> distinct (likes b2))
   \<and> hex_cast other_param = Some other_id
   \<and> findById store other_id = None
   \<and> like_blog hex_cast spec_schema store bob other_param
       = (Fail 404 ''Blog not found'' [], store)
   \<and> hex_cast bad_param = None
   \<and> like_blog hex_cast spec_schema store bob bad_param = (Fail 500 ''Server error'' [], store)
   \<and> reachable hex_cast spec_schema [new_blog next_doc ann first_post]
   \<and> findById [new_blog next_doc ann first_post] other_id = Some (new_blog next_doc ann first_post)
   \<and> like_blog hex_cast spec_schema [new_blog next_doc ann first_post] bob other_param
       = (Json 200 \<lparr>message = ''Blog liked'', likes_count = 1, isLiked = True\<rparr>,
          [(new_blog next_doc ann first_post)\<lparr>likes := [bob]\<rparr>])
   \<and> like_blog hex_cast spec_schema [(new_blog next_doc ann first_post)\<lparr>likes := [bob]\<rparr>]
        bob other_param
       = (Json 200 \<lparr>message = ''Blog unliked'', likes_count = 0, isLiked = False\<rparr>,
          [new_blog next_doc ann first_post])
   \<and> (\<exists>b2. findById [new_blog next_doc ann first_post] other_id = Some b2
         \<and> set (likes b2) = set (likes (new_blog next_doc ann first_post))
         \<and> length (likes b2) = length (likes (new_blog next_doc ann first_post))
         \<and> distinct (likes b2))"
proof -
  have f: "findById store hello_id = Some hello"
    by (simp add: findById_def example_defs)
  have none: "findById store other_id = None"
    by (simp add: findById_def example_defs)
  have d: "distinct (likes hello)" "likes hello = [bob]"
    by (simp_all add: hello_def)
  have s1: "like_blog hex_cast spec_schema store bob hello_param
       = (Json 200 \<lparr>message = ''Blog unliked'', likes_count = 0, isLiked = False\<rparr>,
          [hello\<lparr>likes := []\<rparr>, draft, memo])"
    by (simp add: like_blog_def cast_hello findById_def save_def spec_schema_def Let_def
        example_defs)
  have s2: "like_blog hex_cast spec_schema [hello\<lparr>likes := []\<rparr>, draft, memo] bob hello_param
       = (Json 200 \<lparr>message = ''Blog liked'', likes_count = 1, isLiked = True\<rparr>, store)"
    by (simp add: like_blog_def cast_hello findById_def save_def spec_schema_def Let_def
        example_defs)
  have s3: "like_blog hex_cast spec_schema store ann hello_param
       = (Json 200 \<lparr>message = ''Blog liked'', likes_count = 2, isLiked = True\<rparr>,
          [hello\<lparr>likes := [bob, ann]\<rparr>, draft, memo])"
    by (simp add: like_blog_def cast_hello findById_def save_def spec_schema_def Let_def
        example_defs)
  note toggles = like_blog_toggles[where cast = hex_cast and ok = spec_schema and uid = bob]
  have restored: "\<exists>b2. findById store hello_id = Some b2 \<and> set (likes b2) = set (likes hello)
         \<and> length (likes b2) = length (likes hello) \<and> distinct (likes b2)"
    using toggles[where st = store and i = hello_param] cast_hello f d(1) s1 s2 by blast
  have e1: "like_blog hex_cast spec_schema store bob other_param
       = (Fail 404 ''Blog not found'' [], store)"
    using toggles[where st = store and i = other_param] cast_other none by blast
  have e2: "like_blog hex_cast spec_schema store bob bad_param = (Fail 500 ''Server error'' [], store)"
    using toggles[where st = store and i = bad_param] cast_bad by blast
  have c: "snd (create_blog spec_schema next_doc [] ann first_post)
      = [new_blog next_doc ann first_post]"
    by (simp add: create_blog_def create_errors_def insert_doc_def spec_schema_def new_blog_def
        first_post_def Let_def)
  have r: "reachable hex_cast spec_schema [new_blog next_doc ann first_post]"
    using reachable.created[OF reachable.start, of hex_cast spec_schema next_doc ann first_post] c
    by simp
  have n: "findById [new_blog next_doc ann first_post] other_id
      = Some (new_blog next_doc ann first_post)"
    by (simp add: findById_def new_blog_def next_doc_def)
  have t1: "like_blog hex_cast spec_schema [new_blog next_doc ann first_post] bob other_param
       = (Json 200 \<lparr>message = ''Blog liked'', likes_count = 1, isLiked = True\<rparr>,
          [(new_blog next_doc ann first_post)\<lparr>likes := [bob]\<rparr>])"
    by (simp add: like_blog_def cast_other findById_def save_def spec_schema_def new_blog_def
        next_doc_def first_post_def Let_def)
  have t2: "like_blog hex_cast spec_schema [(new_blog next_doc ann first_post)\<lparr>likes := [bob]\<rparr>]
        bob other_param
       = (Json 200 \<lparr>message = ''Blog unliked'', likes_count = 0, isLiked = False\<rparr>,
          [new_blog next_doc ann first_post])"
    by (simp add: like_blog_def cast_other findById_def save_def spec_schema_def new_blog_def
        next_doc_def first_post_def Let_def)
  have "\<exists>b2. findById [new_blog next_doc ann first_post] other_id = Some b2
         \<and> set (likes b2) = set (likes (new_blog next_doc ann first_post))
         \<and> length (likes b2) = length (likes (new_blog next_doc ann first_post))
         \<and> distinct (likes b2)
         \<and> isLiked \<lparr>message = ''Blog unliked'', likes_count = 0, isLiked = False\<rparr>
             = (\<not> isLiked \<lparr>message = ''Blog liked'', likes_count = 1, isLiked = True\<rparr>)
         \<and> likes_count \<lparr>message = ''Blog unliked'', likes_count = 0, isLiked = False\<rparr>
             = length (likes (new_blog next_doc ann first_post))"
    by (rule toggles[where st = "[new_blog next_doc ann first_post]" and i = other_param,
          THEN conjunct2, THEN conjunct1, rule_format],
        intro conjI, rule cast_other, rule n, rule disjI2, rule r, rule t1, rule t2)
  then have z: "\<exists>b2. findById [new_blog next_doc ann first_post] other_id = Some b2
         \<and> set (likes b2) = set (likes (new_blog next_doc ann first_post))
         \<and> length (likes b2) = length (likes (new_blog next_doc ann first_post))
         \<and> distinct (likes b2)"
    by blast
  show ?thesis
    using cast_hello cast_other cast_bad f none d s1 s2 s3 restored e1 e2 r n t1 t2 z by simp
qed

section \<open>POST / creates a draft unless told otherwise\<close>

text \<open>
  Claim C9. A creation whose body passes the validation, when the save is accepted,
  answers 201 with the new blog and appends it to the store; a body that passes the
  validation makes a blog that the schema of the spec accepts. The new blog of a body
  with no \<open>published\<close> field has \<open>published = False\<close>. Every creation that answers
  with a body is such an answer. A body with no title or no content is answered 400
  with the store as it was: no blog is created.
\<close>

theorem create_blog_defaults:
  "(create_errors body = [] \<and> ok (new_blog f uid body) \<longrightarrow>
      create_blog ok f st uid body =
        (Json 201 (''Blog created successfully'', new_blog f uid body),
         st @ [new_blog f uid body]))
   \<and> (create_errors body = [] \<longrightarrow> spec_schema (new_blog f uid body))
   \<and> (b_published body = None \<longrightarrow> published (new_blog f uid body) = False)
   \<and> (\<forall>c m b st'. create_blog ok f st uid body = (Json c (m, b), st') \<longrightarrow>
        c = 201 \<and> b = new_blog f uid body \<and> st' = st @ [b] \<and> author b = uid
        \<and> (b_published body = None \<longrightarrow> published b = False))
   \<and> (b_title body = None \<or> b_content body = None \<longrightarrow>
        create_errors body \<noteq> [] \<and>
        create_blog ok f st uid body = (Fail 400 ''Validation failed'' (create_errors body), st))"
proof (intro conjI allI impI)
  assume "create_errors body = [] \<and> ok (new_blog f uid body)"
  then show "create_blog ok f st uid body =
        (Json 201 (''Blog created successfully'', new_blog f uid body),
         st @ [new_blog f uid body])"
    by (simp add: create_blog_def insert_doc_def)
next
  assume "create_errors body = []"
  then show "spec_schema (new_blog f uid body)"
    by (auto simp: create_errors_def spec_schema_def new_blog_def Let_def
        split: option.splits if_splits)
next
  assume "b_published body = None"
  then show "published (new_blog f uid body) = False"
    by (simp add: new_blog_def)
next
  fix c m b st'
  assume a: "create_blog ok f st uid body = (Json c (m, b), st')"
  then have r: "c = 201 \<and> b = new_blog f uid body \<and> st' = st @ [b]"
    by (auto simp: create_blog_def insert_doc_def split: option.splits if_splits)
  show "c = 201" "b = new_blog f uid body" "st' = st @ [b]" using r by simp_all
  show "author b = uid" using r by (simp add: new_blog_def)
  assume "b_published body = None"
  then show "published b = False" using r by (simp add: new_blog_def)
next
  assume a: "b_title body = None \<or> b_content body = None"
  then show e: "create_errors body \<noteq> []"
    by (auto simp: create_errors_def Let_def)
  then show "create_blog ok f st uid body = (Fail 400 ''Validation failed'' (create_errors body), st)"
    by (simp add: create_blog_def)
qed

theorem create_blog_defaults_witness:
  "create_errors first_post = []
   \<and> b_published first_post = None
   \<and> spec_schema (new_blog next_doc ann first_post)
   \<and> published (new_blog next_doc ann first_post) = False
   \<and> create_blog spec_schema next_doc store ann first_post =
       (Json 201 (''Blog created successfully'', new_blog next_doc ann first_post),
        [hello, draft, memo, new_blog next_doc ann first_post])
   \<and> b_title untitled = None
   \<and> create_blog spec_schema next_doc store ann untitled =
       (Fail 400 ''Validation failed'' [''Title is required''], store)"
proof -
  have v: "create_errors first_post = []"
    by (simp add: create_errors_def first_post_def)
  have p: "b_published first_post = None"
    by (simp add: first_post_def)
  have t: "b_title untitled = None"
    by (simp add: untitled_def)
  have e: "create_errors untitled = [''Title is required'']"
    by (simp add: create_errors_def untitled_def)
  note valid = create_blog_defaults[of first_post spec_schema next_doc ann store]
  note invalid = create_blog_defaults[of untitled spec_schema next_doc ann store]
  have ok: "spec_schema (new_blog next_doc ann first_post)"
    using valid v by blast
  have d: "published (new_blog next_doc ann first_post) = False"
    using valid p by blast
  have c: "create_blog spec_schema next_doc store ann first_post =
       (Json 201 (''Blog created successfully'', new_blog next_doc ann first_post),
        store @ [new_blog next_doc ann first_post])"
    using valid v ok by blast
  have r: "create_blog spec_schema next_doc store ann untitled =
       (Fail 400 ''Validation failed'' (create_errors untitled), store)"
    using invalid t by blast
  have s: "store @ [new_blog next_doc ann first_post]
      = [hello, draft, memo, new_blog next_doc ann first_post]"
    by (simp add: store_def)
  show ?thesis using v p t ok d c r unfolding e s by simp
qed

section \<open>Queries: lemmas\<close>

lemma set_sort_desc: "set (sort_desc bs) = set bs"
  by (simp add: sort_desc_def)


lemma sorted_sort_desc: "sorted_wrt (\<lambda>x y. createdAt y \<le> createdAt x) (sort_desc bs)"
proof -
  have "sorted (map createdAt (sort_key createdAt bs))" by (rule sorted_sort_key)
  then have "sorted_wrt (\<lambda>x y. createdAt x \<le> createdAt y) (sort_key createdAt bs)"
    by (simp add: sorted_wrt_map)
  then show ?thesis by (simp add: sort_desc_def sorted_wrt_rev)
qed

lemma set_window: "set (take n (drop m xs)) \<subseteq> set xs"
  using set_take_subset set_drop_subset by fast

lemma find_page_Some:
  "find_page q skip limit st = Some bs \<Longrightarrow>
   0 \<le> skip \<and> bs = take (nat \<bar>limit\<bar>) (drop (nat skip) (sort_desc (filter (matches q) st)))"
  by (auto simp: find_page_def split: if_splits)

lemma find_page_subset:
  assumes "find_page q skip limit st = Some bs"
  shows "set bs \<subseteq> {b \<in> set st. matches q b}"
proof -
  have "set bs \<subseteq> set (sort_desc (filter (matches q) st))"
    using find_page_Some[OF assms] set_window by metis
  then show ?thesis by (simp add: set_sort_desc)
qed

lemma ceil_div_ceiling: "ceil_div a b = \<lceil>real_of_int a / real_of_int b\<rceil>"
proof -
  have "\<lceil>real_of_int a / real_of_int b\<rceil> = - \<lfloor>- (real_of_int a / real_of_int b)\<rfloor>"
    by (simp add: ceiling_def)
  also have "- (real_of_int a / real_of_int b) = real_of_int (- a) / real_of_int b"
    by simp
  also have "\<lfloor>real_of_int (- a) / real_of_int b\<rfloor> = (- a) div b"
    by (rule floor_divide_of_int_eq)
  finally show ?thesis by (simp add: ceil_div_def)
qed

lemma or_default_pos: "0 < n \<Longrightarrow> or_default (Some n) d = n"
  by (simp add: or_default_def)

lemma find_page_positive:
  assumes "0 < pg" and "0 < l"
  shows "find_page q ((pg - 1) * l) l st
      = Some (take (nat l) (drop (nat ((pg - 1) * l)) (sort_desc (filter (matches q) st))))"
proof -
  have "0 \<le> (pg - 1) * l" using assms by simp
  moreover have "\<bar>l\<bar> = l" using assms by simp
  ultimately show ?thesis by (simp add: find_page_def)
qed

lemma paginate_ceiling:
  "paginate pg l n = \<lparr>currentPage = pg,
                       totalPages = \<lceil>real_of_int n / real_of_int l\<rceil>,
                       totalBlogs = n,
                       hasNext = (pg < \<lceil>real_of_int n / real_of_int l\<rceil>),
                       hasPrev = (1 < pg)\<rparr>"
  by (simp add: paginate_def ceil_div_ceiling)

lemma window_length: "0 < l \<Longrightarrow> int (min a (nat l)) \<le> l"
  by (auto simp: min_def)

section \<open>Pagination of the two listings\<close>

text \<open>
  Claim C4. With a page \<open>pg\<close> and a limit \<open>l\<close> that are positive integers, the public
  listing (when its filter \<open>q\<close> can be built: the search and the tag compile and the
  author casts, where the request has them) and the listing of one's own blogs
  (filter \<open>q'\<close>) answer 200 with the documents that match the filter, the newest first,
  after skipping \<open>(pg - 1) * l\<close> of them and at most \<open>l\<close> of them; \<open>totalBlogs\<close> is
  the number \<open>n\<close> of all the stored documents that match the same filter, not the size
  of the page; \<open>totalPages\<close> is the ceiling of \<open>n / l\<close>, \<open>hasNext\<close> is
  \<open>pg < totalPages\<close> and \<open>hasPrev\<close> is \<open>pg > 1\<close>. A public listing whose filter
  cannot be built answers 500, whatever the page and the limit.
\<close>

theorem pagination_window:
  "(page_arg p = Some pg \<and> 0 < pg \<and> limit_arg p = Some l \<and> 0 < l \<and>
    public_query rx cast (or_empty (search_arg p)) (or_empty (tag_arg p)) (or_empty (author_arg p))
      = Some q \<longrightarrow>
    (\<exists>bs n. bs = take (nat l) (drop (nat ((pg - 1) * l)) (sort_desc (filter (matches q) st)))
       \<and> n = int (length (filter (matches q) st))
       \<and> int (length bs) \<le> l
       \<and> list_blogs rx cast st p =
           Json 200 \<lparr>blogs = map blog_doc.truncate bs,
                     pagination = \<lparr>currentPage = pg,
                                   totalPages = \<lceil>real_of_int n / real_of_int l\<rceil>,
                                   totalBlogs = n,
                                   hasNext = (pg < \<lceil>real_of_int n / real_of_int l\<rceil>),
                                   hasPrev = (1 < pg)\<rparr>\<rparr>))
   \<and> (my_page_arg p' = Some pg \<and> 0 < pg \<and> my_limit_arg p' = Some l \<and> 0 < l \<and>
       q' = my_query uid (published_arg p') \<longrightarrow>
       (\<exists>bs n. bs = take (nat l) (drop (nat ((pg - 1) * l)) (sort_desc (filter (matches q') st)))
          \<and> n = int (length (filter (matches q') st))
          \<and> int (length bs) \<le> l
          \<and> my_blogs st uid p' =
              Json 200 \<lparr>blogs = bs,
                        pagination = \<lparr>currentPage = pg,
                                      totalPages = \<lceil>real_of_int n / real_of_int l\<rceil>,
                                      totalBlogs = n,
                                      hasNext = (pg < \<lceil>real_of_int n / real_of_int l\<rceil>),
                                      hasPrev = (1 < pg)\<rparr>\<rparr>))
   \<and> (public_query rx cast (or_empty (search_arg p)) (or_empty (tag_arg p))
         (or_empty (author_arg p)) = None \<longrightarrow>
       list_blogs rx cast st p = Fail 500 ''Server error'' [])"
proof (intro conjI impI)
  assume a: "page_arg p = Some pg \<and> 0 < pg \<and> limit_arg p = Some l \<and> 0 < l \<and>
    public_query rx cast (or_empty (search_arg p)) (or_empty (tag_arg p)) (or_empty (author_arg p))
      = Some q"
  then have pg: "0 < pg" and l: "0 < l" by simp_all
  have "list_blogs rx cast st p =
      Json 200 \<lparr>blogs = map blog_doc.truncate
                   (take (nat l) (drop (nat ((pg - 1) * l)) (sort_desc (filter (matches q) st)))),
                pagination = paginate pg l (countDocuments q st)\<rparr>"
    using a find_page_positive[OF pg l, of q st]
    by (simp add: list_blogs_def Let_def or_default_pos)
  then show "\<exists>bs n. bs = take (nat l) (drop (nat ((pg - 1) * l)) (sort_desc (filter (matches q) st)))
       \<and> n = int (length (filter (matches q) st))
       \<and> int (length bs) \<le> l
       \<and> list_blogs rx cast st p =
           Json 200 \<lparr>blogs = map blog_doc.truncate bs,
                     pagination = \<lparr>currentPage = pg,
                                   totalPages = \<lceil>real_of_int n / real_of_int l\<rceil>,
                                   totalBlogs = n,
                                   hasNext = (pg < \<lceil>real_of_int n / real_of_int l\<rceil>),
                                   hasPrev = (1 < pg)\<rparr>\<rparr>"
    using window_length[OF l] paginate_ceiling[of pg l "countDocuments q st"]
    by (simp add: countDocuments_def)
next
  assume a: "my_page_arg p' = Some pg \<and> 0 < pg \<and> my_limit_arg p' = Some l \<and> 0 < l \<and>
       q' = my_query uid (published_arg p')"
  then have pg: "0 < pg" and l: "0 < l" by simp_all
  have "my_blogs st uid p' =
      Json 200 \<lparr>blogs = take (nat l) (drop (nat ((pg - 1) * l)) (sort_desc (filter (matches q') st))),
                pagination = paginate pg l (countDocuments q' st)\<rparr>"
    using a find_page_positive[OF pg l, of q' st]
    by (simp add: my_blogs_def Let_def or_default_pos)
  then show "\<exists>bs n. bs = take (nat l) (drop (nat ((pg - 1) * l)) (sort_desc (filter (matches q') st)))
          \<and> n = int (length (filter (matches q') st))
          \<and> int (length bs) \<le> l
          \<and> my_blogs st uid p' =
              Json 200 \<lparr>blogs = bs,
                        pagination = \<lparr>currentPage = pg,
                                      totalPages = \<lceil>real_of_int n / real_of_int l\<rceil>,
                                      totalBlogs = n,
                                      hasNext = (pg < \<lceil>real_of_int n / real_of_int l\<rceil>),
                                      hasPrev = (1 < pg)\<rparr>\<rparr>"
    using window_length[OF l] paginate_ceiling[of pg l "countDocuments q' st"]
    by (simp add: countDocuments_def)
next
  assume "public_query rx cast (or_empty (search_arg p)) (or_empty (tag_arg p))
         (or_empty (author_arg p)) = None"
  then show "list_blogs rx cast st p = Fail 500 ''Server error'' []"
    by (simp add: list_blogs_def Let_def)
qed

theorem pagination_window_witness:
  "page_arg second_page = Some 2 \<and> limit_arg second_page = Some 1
   \<and> list_blogs literal_rx hex_cast store second_page =
       Json 200 \<lparr>blogs = [blog_doc.truncate hello],
                 pagination = \<lparr>currentPage = 2, totalPages = 2, totalBlogs = 2,
                               hasNext = False, hasPrev = True\<rparr>\<rparr>
   \<and> my_page_arg my_second_page = Some 2 \<and> my_limit_arg my_second_page = Some 1
   \<and> my_blogs store ann my_second_page =
       Json 200 \<lparr>blogs = [hello],
                 pagination = \<lparr>currentPage = 2, totalPages = 2, totalBlogs = 2,
                               hasNext = False, hasPrev = True\<rparr>\<rparr>
   \<and> hex_cast ''ann'' = None
   \<and> list_blogs literal_rx hex_cast store (by_author ''ann'') = Fail 500 ''Server error'' []
   \<and> hex_cast ann_param = Some ann
   \<and> list_blogs literal_rx hex_cast store (by_author ann_param) =
       Json 200 \<lparr>blogs = [blog_doc.truncate hello],
                 pagination = \<lparr>currentPage = 1, totalPages = 1, totalBlogs = 1,
                               hasNext = False, hasPrev = False\<rparr>\<rparr>"
proof -
  define q where "q = \<lparr>q_published = Some True, q_or = None, q_tags = None, q_author = None\<rparr>"
  define q' where "q' = my_query ann (published_arg my_second_page)"
  have args: "page_arg second_page = Some 2" "limit_arg second_page = Some 1"
    "my_page_arg my_second_page = Some 2" "my_limit_arg my_second_page = Some 1"
    by (simp_all add: second_page_def my_second_page_def)
  have pq: "public_query literal_rx hex_cast (or_empty (search_arg second_page))
      (or_empty (tag_arg second_page)) (or_empty (author_arg second_page)) = Some q"
    by (simp add: public_query_def or_empty_def second_page_def q_def)
  have m: "filter (matches q) store = [hello, memo]"
    by (simp add: matches_def q_def example_defs)
  have m': "filter (matches q') store = [hello, draft]"
    by (simp add: matches_def q'_def my_query_def my_second_page_def example_defs)
  have s: "sort_desc [hello, memo] = [memo, hello]" "sort_desc [hello, draft] = [draft, hello]"
    by (simp_all add: sort_desc_def example_defs)
  from pagination_window[where p = second_page and pg = 2 and l = 1 and rx = literal_rx
      and cast = hex_cast and q = q and st = store and p' = my_second_page and q' = q' and uid = ann]
  have "list_blogs literal_rx hex_cast store second_page =
       Json 200 \<lparr>blogs = [blog_doc.truncate hello],
                 pagination = \<lparr>currentPage = 2, totalPages = 2, totalBlogs = 2,
                               hasNext = False, hasPrev = True\<rparr>\<rparr>
     \<and> my_blogs store ann my_second_page =
       Json 200 \<lparr>blogs = [hello],
                 pagination = \<lparr>currentPage = 2, totalPages = 2, totalBlogs = 2,
                               hasNext = False, hasPrev = True\<rparr>\<rparr>"
    unfolding m m' s using args pq q'_def by simp
  then have pages: "list_blogs literal_rx hex_cast store second_page =
       Json 200 \<lparr>blogs = [blog_doc.truncate hello],
                 pagination = \<lparr>currentPage = 2, totalPages = 2, totalBlogs = 2,
                               hasNext = False, hasPrev = True\<rparr>\<rparr>"
    "my_blogs store ann my_second_page =
       Json 200 \<lparr>blogs = [hello],
                 pagination = \<lparr>currentPage = 2, totalPages = 2, totalBlogs = 2,
                               hasNext = False, hasPrev = True\<rparr>\<rparr>"
    by simp_all
  have bad: "hex_cast ''ann'' = None" by (simp add: hex_cast_def)
  have good: "hex_cast ann_param = Some ann"
    by (simp add: hex_cast_def hex_def lower_def ann_param_def ann_def)
  have nq: "public_query literal_rx hex_cast (or_empty (search_arg (by_author ''ann'')))
      (or_empty (tag_arg (by_author ''ann''))) (or_empty (author_arg (by_author ''ann''))) = None"
    by (simp add: public_query_def or_empty_def by_author_def bad)
  have refused: "list_blogs literal_rx hex_cast store (by_author ''ann'')
      = Fail 500 ''Server error'' []"
    using pagination_window[where p = "by_author ''ann''" and rx = literal_rx
      and cast = hex_cast and st = store] nq by blast
  define qa where "qa = \<lparr>q_published = Some True, q_or = None, q_tags = None,
      q_author = Some ann\<rparr>"
  have aq: "public_query literal_rx hex_cast (or_empty (search_arg (by_author ann_param)))
      (or_empty (tag_arg (by_author ann_param))) (or_empty (author_arg (by_author ann_param)))
      = Some qa"
  proof -
    have ne: "ann_param \<noteq> []" by (simp add: ann_param_def)
    show ?thesis by (simp add: public_query_def or_empty_def by_author_def good qa_def ne)
  qed
  have ma: "filter (matches qa) store = [hello]"
    by (simp add: matches_def qa_def example_defs)
  have sa: "sort_desc [hello] = [hello]" by (simp add: sort_desc_def)
  have aargs: "page_arg (by_author ann_param) = Some 1" "limit_arg (by_author ann_param) = Some 10"
    by (simp_all add: by_author_def)
  have one: "\<lceil>(1::real) / 10\<rceil> = 1" by (simp add: ceiling_eq_iff)
  from pagination_window[where p = "by_author ann_param" and pg = 1 and l = 10
      and rx = literal_rx and cast = hex_cast and q = qa and st = store
      and p' = my_second_page and q' = q' and uid = ann]
  have listed: "list_blogs literal_rx hex_cast store (by_author ann_param) =
       Json 200 \<lparr>blogs = [blog_doc.truncate hello],
                 pagination = \<lparr>currentPage = 1, totalPages = 1, totalBlogs = 1,
                               hasNext = False, hasPrev = False\<rparr>\<rparr>"
    unfolding ma sa using aargs aq one by simp
  show ?thesis using args pages bad refused good listed by simp
qed

section \<open>The public listing shows published blogs only\<close>

lemma public_query_Some:
  assumes "public_query rx cast s tg a = Some q"
  shows "q_published q = Some True
    \<and> (s = [] \<longrightarrow> q_or q = None)
    \<and> (s \<noteq> [] \<longrightarrow> (\<exists>r. rx s = Some r \<and> q_or q = Some [Title_regex r, Content_regex r, Tags_in r]))
    \<and> (tg = [] \<longrightarrow> q_tags q = None)
    \<and> (tg \<noteq> [] \<longrightarrow> (\<exists>r. rx tg = Some r \<and> q_tags q = Some r))
    \<and> (a = [] \<longrightarrow> q_author q = None)
    \<and> (a \<noteq> [] \<longrightarrow> (\<exists>j. cast a = Some j \<and> q_author q = Some j))"
  using assms
  by (auto simp: public_query_def Let_def split: option.splits if_splits)

lemma public_matches_published:
  "public_query rx cast s tg a = Some q \<Longrightarrow> matches q b \<Longrightarrow> published b"
  using public_query_Some[of rx cast s tg a q] by (simp add: matches_def)

lemma list_blogs_Json:
  assumes "list_blogs rx cast st p = Json c r"
  shows "\<exists>q bs. public_query rx cast (or_empty (search_arg p)) (or_empty (tag_arg p))
                   (or_empty (author_arg p)) = Some q
           \<and> set bs \<subseteq> {b \<in> set st. matches q b}
           \<and> blogs r = map blog_doc.truncate bs \<and> c = 200
           \<and> totalBlogs (pagination r) = int (length (filter (matches q) st))"
proof -
  from assms obtain q bs where q: "public_query rx cast (or_empty (search_arg p))
      (or_empty (tag_arg p)) (or_empty (author_arg p)) = Some q"
    and bs: "find_page q ((or_default (page_arg p) 1 - 1) * or_default (limit_arg p) 10)
               (or_default (limit_arg p) 10) st = Some bs"
    and r: "r = \<lparr>blogs = map blog_doc.truncate bs,
                 pagination = paginate (or_default (page_arg p) 1) (or_default (limit_arg p) 10)
                                (countDocuments q st)\<rparr>"
    and c: "c = 200"
    by (auto simp: list_blogs_def Let_def split: option.splits)
  have "totalBlogs (pagination r) = int (length (filter (matches q) st))"
    using r by (simp add: paginate_def countDocuments_def)
  then show ?thesis using q find_page_subset[OF bs] r c by auto
qed

lemma published_truncate: "published (blog_doc.truncate b) = published b"
  by (simp add: blog_doc.defs)

lemma blog_id_truncate: "blog_id (blog_doc.truncate b) = blog_id b"
  by (simp add: blog_doc.defs)

lemma list_blogs_published:
  assumes "list_blogs rx cast st p = Json c r" and "x \<in> set (blogs r)"
  shows "published x \<and> (\<exists>b \<in> set st. published b \<and> x = blog_doc.truncate b)"
proof -
  from list_blogs_Json[OF assms(1)] obtain q bs where
    q: "public_query rx cast (or_empty (search_arg p)) (or_empty (tag_arg p))
          (or_empty (author_arg p)) = Some q"
    and bs: "set bs \<subseteq> {b \<in> set st. matches q b}"
    and r: "blogs r = map blog_doc.truncate bs" by blast
  from assms(2) r obtain b where b: "b \<in> set bs" "x = blog_doc.truncate b" by auto
  have "b \<in> set st" "matches q b" using b(1) bs by auto
  then have "published b" using public_matches_published[OF q] by simp
  then show ?thesis using b(2) \<open>b \<in> set st\<close> by (auto simp: published_truncate)
qed

lemma list_blogs_hides:
  assumes "list_blogs rx cast st p = Json c r" and "\<forall>b \<in> set st. blog_id b = j \<longrightarrow> \<not> published b"
  shows "\<forall>x \<in> set (blogs r). blog_id x \<noteq> j"
proof
  fix x
  assume x: "x \<in> set (blogs r)"
  from list_blogs_published[OF assms(1) x] obtain b where
    b: "b \<in> set st" "published b" "x = blog_doc.truncate b" by blast
  have "blog_id x = blog_id b" using b(3) by (simp add: blog_id_truncate)
  then show "blog_id x \<noteq> j" using b(1,2) assms(2) by auto
qed

lemma replace_doc_same_id:
  "distinct (map blog_id st) \<Longrightarrow> x \<in> set (replace_doc b st) \<Longrightarrow> blog_id x = blog_id b
   \<Longrightarrow> x = b"
proof (induction st)
  case Nil
  then show ?case by simp
next
  case (Cons a st)
  show ?case
  proof (cases "blog_id a = blog_id b")
    case True
    then have "x = b \<or> x \<in> set st" using Cons.prems(2) by simp
    moreover have "\<forall>y \<in> set st. blog_id y \<noteq> blog_id b" using Cons.prems(1) True by (auto simp: image_iff)
    ultimately show ?thesis using Cons.prems(3) by auto
  next
    case False
    then have "x \<in> set (replace_doc b st)" using Cons.prems(2,3) by auto
    then show ?thesis using Cons.IH Cons.prems(1,3) by simp
  qed
qed

text \<open>
  Claim C5. Whatever the search, tag, author, page and limit parameters, every document
  of a public listing has \<open>published = True\<close> and is the projection of a stored blog
  that is published. An id whose stored blog is not published is the id of no document
  of the listing. So the listing taken after a creation with \<open>published\<close> omitted or
  false does not show the new blog (its id being new), and the listing taken after an
  update to \<open>published = False\<close> does not show the updated blog (ids being unique).
  A listing that cannot build its filter (a search or a tag that does not compile, an
  author that does not cast) gives no document: it answers 500.
\<close>

theorem public_listing_published_only:
  "(\<forall>c r. list_blogs rx cast st p = Json c r \<longrightarrow>
      (\<forall>x \<in> set (blogs r). published x \<and> (\<exists>b \<in> set st. published b \<and> x = blog_doc.truncate b)))
   \<and> (\<forall>c r j. list_blogs rx cast st p = Json c r \<and> (\<forall>b \<in> set st. blog_id b = j \<longrightarrow> \<not> published b)
        \<longrightarrow> (\<forall>x \<in> set (blogs r). blog_id x \<noteq> j))
   \<and> (\<forall>c m b st' c' r.
        create_blog ok f st uid body = (Json c (m, b), st')
        \<and> (b_published body = None \<or> b_published body = Some False)
        \<and> (\<forall>x \<in> set st. blog_id x \<noteq> new_id f)
        \<and> list_blogs rx cast st' p = Json c' r \<longrightarrow>
        (\<forall>x \<in> set (blogs r). blog_id x \<noteq> new_id f))
   \<and> (\<forall>c m b st' c' r j.
        update_blog cast ok st uid i body = (Json c (m, b), st')
        \<and> cast i = Some j
        \<and> b_published body = Some False
        \<and> distinct (map blog_id st)
        \<and> list_blogs rx cast st' p = Json c' r \<longrightarrow>
        (\<forall>x \<in> set (blogs r). blog_id x \<noteq> j))"
proof (intro conjI allI impI)
  fix c r
  assume "list_blogs rx cast st p = Json c r"
  then show "\<forall>x \<in> set (blogs r). published x \<and> (\<exists>b \<in> set st. published b \<and> x = blog_doc.truncate b)"
    using list_blogs_published by blast
next
  fix c r j
  assume "list_blogs rx cast st p = Json c r \<and> (\<forall>b \<in> set st. blog_id b = j \<longrightarrow> \<not> published b)"
  then show "\<forall>x \<in> set (blogs r). blog_id x \<noteq> j"
    using list_blogs_hides by blast
next
  fix c m b st' c' r
  assume a: "create_blog ok f st uid body = (Json c (m, b), st')
        \<and> (b_published body = None \<or> b_published body = Some False)
        \<and> (\<forall>x \<in> set st. blog_id x \<noteq> new_id f)
        \<and> list_blogs rx cast st' p = Json c' r"
  then have b: "b = new_blog f uid body" and st': "st' = st @ [b]"
    by (auto simp: create_blog_def insert_doc_def split: option.splits if_splits)
  have "\<not> published b" "blog_id b = new_id f" using a b by (auto simp: new_blog_def)
  then have "\<forall>x \<in> set st'. blog_id x = new_id f \<longrightarrow> \<not> published x"
    using a st' by auto
  then show "\<forall>x \<in> set (blogs r). blog_id x \<noteq> new_id f"
    using a list_blogs_hides by blast
next
  fix c m b st' c' r j
  assume a: "update_blog cast ok st uid i body = (Json c (m, b), st')
        \<and> cast i = Some j
        \<and> b_published body = Some False
        \<and> distinct (map blog_id st)
        \<and> list_blogs rx cast st' p = Json c' r"
  then have u: "update_blog cast ok st uid i body = (Json c (m, b), st')" by simp
  from update_blog_Json[OF u] a obtain b0 where b0: "findById st j = Some b0"
    "b = apply_body body b0" "st' = replace_doc b st" by auto
  have id: "blog_id b = j" using b0 apply_body_frame[of body b0] findById_id[OF b0(1)] by simp
  have "\<not> published b" using a b0(2) apply_body_fields[of body b0] by simp
  then have "\<forall>x \<in> set st'. blog_id x = j \<longrightarrow> \<not> published x"
    using replace_doc_same_id[of st _ b] a b0(3) id by auto
  then show "\<forall>x \<in> set (blogs r). blog_id x \<noteq> j"
    using a list_blogs_hides by blast
qed

theorem public_listing_published_only_witness:
  "list_blogs literal_rx hex_cast store front_page =
     Json 200 \<lparr>blogs = [blog_doc.truncate memo, blog_doc.truncate hello],
               pagination = \<lparr>currentPage = 1, totalPages = 1, totalBlogs = 2,
                             hasNext = False, hasPrev = False\<rparr>\<rparr>
   \<and> published (blog_doc.truncate memo) \<and> published (blog_doc.truncate hello)
   \<and> list_all (\<lambda>x. blog_id x \<noteq> draft_id) [blog_doc.truncate memo, blog_doc.truncate hello]
   \<and> create_blog spec_schema next_doc store ann first_post =
       (Json 201 (''Blog created successfully'', new_blog next_doc ann first_post),
        store @ [new_blog next_doc ann first_post])
   \<and> b_published first_post = None
   \<and> list_all (\<lambda>x. blog_id x \<noteq> new_id next_doc) store
   \<and> list_blogs literal_rx hex_cast (store @ [new_blog next_doc ann first_post]) front_page =
       Json 200 \<lparr>blogs = [blog_doc.truncate memo, blog_doc.truncate hello],
                 pagination = \<lparr>currentPage = 1, totalPages = 1, totalBlogs = 2,
                               hasNext = False, hasPrev = False\<rparr>\<rparr>
   \<and> list_all (\<lambda>x. blog_id x \<noteq> new_id next_doc)
        [blog_doc.truncate memo, blog_doc.truncate hello]
   \<and> update_blog hex_cast spec_schema store ann hello_param retag =
       (Json 200 (''Blog updated successfully'', apply_body retag hello),
        [apply_body retag hello, draft, memo])
   \<and> hex_cast hello_param = Some hello_id
   \<and> b_published retag = Some False
   \<and> distinct (map blog_id store)
   \<and> list_blogs literal_rx hex_cast [apply_body retag hello, draft, memo] front_page =
       Json 200 \<lparr>blogs = [blog_doc.truncate memo],
                 pagination = \<lparr>currentPage = 1, totalPages = 1, totalBlogs = 1,
                               hasNext = False, hasPrev = False\<rparr>\<rparr>
   \<and> list_all (\<lambda>x. blog_id x \<noteq> hello_id) [blog_doc.truncate memo]"
proof -
  have l: "list_blogs literal_rx hex_cast store front_page =
     Json 200 \<lparr>blogs = [blog_doc.truncate memo, blog_doc.truncate hello],
               pagination = \<lparr>currentPage = 1, totalPages = 1, totalBlogs = 2,
                             hasNext = False, hasPrev = False\<rparr>\<rparr>"
    by (simp add: list_blogs_def public_query_def or_default_def or_empty_def find_page_def
        sort_desc_def matches_def countDocuments_def paginate_def ceil_div_def Let_def
        front_page_def example_defs)
  have c: "create_blog spec_schema next_doc store ann first_post =
       (Json 201 (''Blog created successfully'', new_blog next_doc ann first_post),
        store @ [new_blog next_doc ann first_post])"
    by (simp add: create_blog_def create_errors_def insert_doc_def spec_schema_def new_blog_def
        first_post_def Let_def)
  have p: "b_published first_post = None" by (simp add: first_post_def)
  have n: "\<forall>x \<in> set store. blog_id x \<noteq> new_id next_doc"
    by (simp add: next_doc_def example_defs)
  have l': "list_blogs literal_rx hex_cast (store @ [new_blog next_doc ann first_post]) front_page =
       Json 200 \<lparr>blogs = [blog_doc.truncate memo, blog_doc.truncate hello],
                 pagination = \<lparr>currentPage = 1, totalPages = 1, totalBlogs = 2,
                               hasNext = False, hasPrev = False\<rparr>\<rparr>"
    by (simp add: list_blogs_def public_query_def or_default_def or_empty_def find_page_def
        sort_desc_def matches_def countDocuments_def paginate_def ceil_div_def Let_def
        front_page_def new_blog_def first_post_def next_doc_def example_defs)
  have d: "\<forall>b \<in> set store. blog_id b = draft_id \<longrightarrow> \<not> published b"
    by (simp add: example_defs)
  note listing = public_listing_published_only[where rx = literal_rx and cast = hex_cast
      and st = store and p = front_page and ok = spec_schema and f = next_doc and uid = ann
      and body = first_post]
  have 1: "\<forall>x \<in> set [blog_doc.truncate memo, blog_doc.truncate hello]. published x"
    using listing l by (metis listing.select_convs(1))
  have 2: "\<forall>x \<in> set [blog_doc.truncate memo, blog_doc.truncate hello]. blog_id x \<noteq> draft_id"
    using listing l d by (metis listing.select_convs(1))
  have 3: "\<forall>x \<in> set [blog_doc.truncate memo, blog_doc.truncate hello].
             blog_id x \<noteq> new_id next_doc"
    using listing c p n l' by (metis listing.select_convs(1))
  have u: "update_blog hex_cast spec_schema store ann hello_param retag =
       (Json 200 (''Blog updated successfully'', apply_body retag hello),
        [apply_body retag hello, draft, memo])"
    by (simp add: update_blog_def update_errors_def cast_hello findById_def save_def
        spec_schema_def apply_body_def retag_def example_defs)
  have up: "b_published retag = Some False" by (simp add: retag_def)
  have ids: "distinct (map blog_id store)" by (simp add: example_defs)
  have l'': "list_blogs literal_rx hex_cast [apply_body retag hello, draft, memo] front_page =
       Json 200 \<lparr>blogs = [blog_doc.truncate memo],
                 pagination = \<lparr>currentPage = 1, totalPages = 1, totalBlogs = 1,
                               hasNext = False, hasPrev = False\<rparr>\<rparr>"
    by (simp add: list_blogs_def public_query_def or_default_def or_empty_def find_page_def
        sort_desc_def matches_def countDocuments_def paginate_def ceil_div_def Let_def
        front_page_def apply_body_def retag_def example_defs)
  have 4: "\<forall>x \<in> set [blog_doc.truncate memo]. blog_id x \<noteq> hello_id"
    using public_listing_published_only[where rx = literal_rx and cast = hex_cast
      and st = store and p = front_page and ok = spec_schema and uid = ann and body = retag
      and i = hello_param] u cast_hello up ids l'' by (metis listing.select_convs(1))
  show ?thesis using l c p n l' 1 2 3 u cast_hello up ids l'' 4 by (simp add: list_all_iff)
qed

section \<open>The search of the public listing\<close>

text \<open>
  Claim C6, as the claim states it, fails on a request that has a tag (or an author)
  parameter beside the search: the filter is then the conjunction of the search with
  the tag filter. The blog \<open>hello\<close> is published and its title matches the search
  \<open>hello\<close>, but it has no tag that matches \<open>misc\<close>: the filter refuses it and the
  listing does not show it.
\<close>

theorem search_with_tag_is_narrower:
  "published hello
   \<and> (\<exists>r. literal_rx ''hello'' = Some r \<and> r (title hello))
   \<and> (\<exists>q. public_query literal_rx hex_cast (or_empty (search_arg search_hello_misc))
             (or_empty (tag_arg search_hello_misc)) (or_empty (author_arg search_hello_misc))
             = Some q \<and> \<not> matches q hello)
   \<and> list_blogs literal_rx hex_cast store search_hello_misc =
       Json 200 \<lparr>blogs = [blog_doc.truncate memo],
                 pagination = \<lparr>currentPage = 1, totalPages = 1, totalBlogs = 1,
                               hasNext = False, hasPrev = False\<rparr>\<rparr>"
  by (simp add: list_blogs_def public_query_def or_default_def or_empty_def find_page_def
      sort_desc_def matches_def countDocuments_def paginate_def ceil_div_def Let_def
      search_hello_misc_def rx_defs example_defs)

text \<open>
  Claim C6, amended. For a search \<open>s\<close> that is not empty and that the engine compiles
  to \<open>r\<close> (and a tag parameter, when there is one, that it compiles to \<open>rt\<close>, and
  an author parameter, when there is one, that casts to the ObjectId \<open>aj\<close>), the
  public listing builds a filter. A blog matches it if and only if it is published, and
  \<open>r\<close> matches its title or its content or at least one of its tags, and it has a
  tag that \<open>rt\<close> matches when the request has a tag parameter, and its author is
  \<open>aj\<close> when the request has an author parameter. With no tag and no author parameter, a
  published blog matches the filter if and only if \<open>r\<close> matches its title, or its
  content, or at least one of its tags. The listing shows documents that match this
  filter only and counts those of the store that match it. A search that the engine
  does not compile is answered 500, and so is an author that does not cast.
\<close>

theorem search_filter:
  "(s \<noteq> [] \<and> rx s = Some r \<and> (tg \<noteq> [] \<longrightarrow> rx tg = Some rt)
    \<and> (a \<noteq> [] \<longrightarrow> cast a = Some aj) \<longrightarrow>
     (\<exists>q. public_query rx cast s tg a = Some q
        \<and> (\<forall>b. matches q b \<longleftrightarrow>
               published b
               \<and> (r (title b) \<or> r (content b) \<or> (\<exists>t \<in> set (tags b). r t))
               \<and> (tg \<noteq> [] \<longrightarrow> (\<exists>t \<in> set (tags b). rt t))
               \<and> (a \<noteq> [] \<longrightarrow> author b = aj))
        \<and> (tg = [] \<and> a = [] \<longrightarrow>
             (\<forall>b. published b \<longrightarrow>
                (matches q b \<longleftrightarrow> r (title b) \<or> r (content b) \<or> (\<exists>t \<in> set (tags b). r t))))
        \<and> (\<forall>p c res. or_empty (search_arg p) = s \<and> or_empty (tag_arg p) = tg
               \<and> or_empty (author_arg p) = a \<and> list_blogs rx cast st p = Json c res \<longrightarrow>
               (\<forall>x \<in> set (blogs res). \<exists>b \<in> set st. matches q b \<and> x = blog_doc.truncate b)
               \<and> totalBlogs (pagination res) = int (length (filter (matches q) st)))))
   \<and> (\<forall>p. or_empty (search_arg p) = s \<and> s \<noteq> [] \<and> rx s = None \<longrightarrow>
         list_blogs rx cast st p = Fail 500 ''Server error'' [])
   \<and> (\<forall>p. or_empty (author_arg p) = a \<and> a \<noteq> [] \<and> cast a = None \<longrightarrow>
         list_blogs rx cast st p = Fail 500 ''Server error'' [])"
proof (intro conjI impI allI)
  assume a: "s \<noteq> [] \<and> rx s = Some r \<and> (tg \<noteq> [] \<longrightarrow> rx tg = Some rt)
    \<and> (a \<noteq> [] \<longrightarrow> cast a = Some aj)"
  define q where "q = \<lparr>q_published = Some True,
      q_or = Some [Title_regex r, Content_regex r, Tags_in r],
      q_tags = (if tg \<noteq> [] then Some rt else None),
      q_author = (if a \<noteq> [] then Some aj else None)\<rparr>"
  have pq: "public_query rx cast s tg a = Some q"
    using a by (simp add: public_query_def q_def)
  have m: "matches q b \<longleftrightarrow>
               published b
               \<and> (r (title b) \<or> r (content b) \<or> (\<exists>t \<in> set (tags b). r t))
               \<and> (tg \<noteq> [] \<longrightarrow> (\<exists>t \<in> set (tags b). rt t))
               \<and> (a \<noteq> [] \<longrightarrow> author b = aj)" for b
    by (simp add: matches_def q_def)
  have listed: "(\<forall>x \<in> set (blogs res). \<exists>b \<in> set st. matches q b \<and> x = blog_doc.truncate b)
               \<and> totalBlogs (pagination res) = int (length (filter (matches q) st))"
    if "or_empty (search_arg p) = s \<and> or_empty (tag_arg p) = tg
               \<and> or_empty (author_arg p) = a \<and> list_blogs rx cast st p = Json c res"
    for p :: list_params and c and res :: "blog_doc listing"
  proof -
    from that have l: "list_blogs rx cast st p = Json c res" by simp
    from list_blogs_Json[OF l] that pq obtain bs where
      bs: "set bs \<subseteq> {b \<in> set st. matches q b}" "blogs res = map blog_doc.truncate bs"
      and n: "totalBlogs (pagination res) = int (length (filter (matches q) st))" by auto
    show ?thesis using bs n by auto
  qed
  show "\<exists>q. public_query rx cast s tg a = Some q
        \<and> (\<forall>b. matches q b \<longleftrightarrow>
               published b
               \<and> (r (title b) \<or> r (content b) \<or> (\<exists>t \<in> set (tags b). r t))
               \<and> (tg \<noteq> [] \<longrightarrow> (\<exists>t \<in> set (tags b). rt t))
               \<and> (a \<noteq> [] \<longrightarrow> author b = aj))
        \<and> (tg = [] \<and> a = [] \<longrightarrow>
             (\<forall>b. published b \<longrightarrow>
                (matches q b \<longleftrightarrow> r (title b) \<or> r (content b) \<or> (\<exists>t \<in> set (tags b). r t))))
        \<and> (\<forall>p c res. or_empty (search_arg p) = s \<and> or_empty (tag_arg p) = tg
               \<and> or_empty (author_arg p) = a \<and> list_blogs rx cast st p = Json c res \<longrightarrow>
               (\<forall>x \<in> set (blogs res). \<exists>b \<in> set st. matches q b \<and> x = blog_doc.truncate b)
               \<and> totalBlogs (pagination res) = int (length (filter (matches q) st)))"
  proof (intro exI[of _ q] conjI allI impI)
    show "public_query rx cast s tg a = Some q" by (rule pq)
  next
    fix b :: blog
    show "matches q b \<longleftrightarrow>
               published b
               \<and> (r (title b) \<or> r (content b) \<or> (\<exists>t \<in> set (tags b). r t))
               \<and> (tg \<noteq> [] \<longrightarrow> (\<exists>t \<in> set (tags b). rt t))
               \<and> (a \<noteq> [] \<longrightarrow> author b = aj)" by (rule m)
  next
    fix b :: blog
    assume "tg = [] \<and> a = []" "published b"
    then show "matches q b \<longleftrightarrow> r (title b) \<or> r (content b) \<or> (\<exists>t \<in> set (tags b). r t)"
      using m[of b] by simp
  next
    fix p :: list_params and c and res :: "blog_doc listing"
    assume h: "or_empty (search_arg p) = s \<and> or_empty (tag_arg p) = tg
               \<and> or_empty (author_arg p) = a \<and> list_blogs rx cast st p = Json c res"
    show "\<forall>x \<in> set (blogs res). \<exists>b \<in> set st. matches q b \<and> x = blog_doc.truncate b"
      using listed[OF h] by simp
    show "totalBlogs (pagination res) = int (length (filter (matches q) st))"
      using listed[OF h] by simp
  qed
next
  fix p :: list_params
  assume "or_empty (search_arg p) = s \<and> s \<noteq> [] \<and> rx s = None"
  then show "list_blogs rx cast st p = Fail 500 ''Server error'' []"
    by (simp add: list_blogs_def public_query_def Let_def)
next
  fix p :: list_params
  assume "or_empty (author_arg p) = a \<and> a \<noteq> [] \<and> cast a = None"
  then show "list_blogs rx cast st p = Fail 500 ''Server error'' []"
    by (auto simp: list_blogs_def public_query_def Let_def split: option.splits)
qed

theorem search_filter_witness:
  "(\<exists>r q. literal_rx ''news'' = Some r
      \<and> public_query literal_rx hex_cast ''news'' [] [] = Some q
      \<and> published hello \<and> \<not> r (title hello) \<and> \<not> r (content hello) \<and> r ''News''
      \<and> tags hello = [''News''] \<and> matches q hello
      \<and> published memo \<and> \<not> r (title memo) \<and> \<not> r (content memo) \<and> tags memo = [''misc'']
      \<and> \<not> r ''misc'' \<and> \<not> matches q memo)
   \<and> list_blogs literal_rx hex_cast store search_news =
       Json 200 \<lparr>blogs = [blog_doc.truncate hello],
                 pagination = \<lparr>currentPage = 1, totalPages = 1, totalBlogs = 1,
                               hasNext = False, hasPrev = False\<rparr>\<rparr>
   \<and> list_blogs literal_rx hex_cast store search_hello =
       Json 200 \<lparr>blogs = [blog_doc.truncate memo, blog_doc.truncate hello],
                 pagination = \<lparr>currentPage = 1, totalPages = 1, totalBlogs = 2,
                               hasNext = False, hasPrev = False\<rparr>\<rparr>"
proof -
  define r where "r = (\<lambda>t. contains ''news'' (map lower t))"
  have rx: "literal_rx ''news'' = Some r"
    by (simp add: r_def rx_defs)
  have facts: "published hello" "\<not> r (title hello)" "\<not> r (content hello)" "r ''News''"
    "tags hello = [''News'']" "published memo" "\<not> r (title memo)" "\<not> r (content memo)"
    "tags memo = [''misc'']" "\<not> r ''misc''"
    by (simp_all add: r_def lower_def example_defs)
  from search_filter[where s = "''news''" and rx = literal_rx and r = r and tg = "[]"
      and a = "[]" and cast = hex_cast and st = store] rx
  obtain q where q: "public_query literal_rx hex_cast ''news'' [] [] = Some q"
    and m: "\<And>b. published b \<Longrightarrow>
       matches q b \<longleftrightarrow> r (title b) \<or> r (content b) \<or> (\<exists>t \<in> set (tags b). r t)"
    by auto
  have mh: "matches q hello" using m[of hello] facts by simp
  have mm: "\<not> matches q memo" using m[of memo] facts by simp
  have l1: "list_blogs literal_rx hex_cast store search_news =
       Json 200 \<lparr>blogs = [blog_doc.truncate hello],
                 pagination = \<lparr>currentPage = 1, totalPages = 1, totalBlogs = 1,
                               hasNext = False, hasPrev = False\<rparr>\<rparr>"
    by (simp add: list_blogs_def public_query_def or_default_def or_empty_def find_page_def
      sort_desc_def matches_def countDocuments_def paginate_def ceil_div_def Let_def
      search_news_def rx_defs example_defs)
  have l2: "list_blogs literal_rx hex_cast store search_hello =
       Json 200 \<lparr>blogs = [blog_doc.truncate memo, blog_doc.truncate hello],
                 pagination = \<lparr>currentPage = 1, totalPages = 1, totalBlogs = 2,
                               hasNext = False, hasPrev = False\<rparr>\<rparr>"
    by (simp add: list_blogs_def public_query_def or_default_def or_empty_def find_page_def
      sort_desc_def matches_def countDocuments_def paginate_def ceil_div_def Let_def
      search_hello_def rx_defs example_defs)
  show ?thesis using rx q facts mh mm l1 l2 by blast
qed

section \<open>GET /my-blogs lists the requester's blogs\<close>





section \<open>GET /profile/:id shows published blogs only\<close>

lemma profile_query_matches:
  "matches \<lparr>q_published = Some True, q_or = None, q_tags = None, q_author = Some j\<rparr> b
     \<longleftrightarrow> author b = j \<and> published b"
  by (auto simp: matches_def)

lemma sorted_cards:
  "sorted_wrt (\<lambda>x y. card_createdAt y \<le> card_createdAt x) (map card (take n (sort_desc bs)))"
proof -
  have "sorted_wrt (\<lambda>x y. createdAt y \<le> createdAt x) (take n (sort_desc bs))"
    using sorted_sort_desc by (rule sorted_wrt_take)
  then show ?thesis by (simp add: sorted_wrt_map card_def)
qed

lemma get_profile_Json:
  assumes "get_profile cast users st i = Json c (u, cards)"
  shows "\<exists>j. cast i = Some j
    \<and> cards = map card (take 10 (sort_desc (filter (\<lambda>b. author b = j \<and> published b) st)))"
proof -
  have m: "matches \<lparr>q_published = Some True, q_or = None, q_tags = None, q_author = Some j\<rparr>
      = (\<lambda>b. author b = j \<and> published b)" for j
    by (rule ext) (rule profile_query_matches)
  from assms show ?thesis
    by (auto simp: get_profile_def m split: option.splits)
qed

text \<open>
  Claim C10. For an id that casts to the ObjectId of a stored user, the profile answers
  200 with the user record without its password and with the cards of that user's
  published blogs: at most 10 of them, the newest first, each the card (id, title,
  excerpt, creation time, views, likes) of a stored blog of that author with
  \<open>published = True\<close>; a card has no content field. An id whose stored blogs are all
  unpublished is the id of no card, in anyone's profile. For an id that casts to an
  ObjectId that no user has, the answer is 404; for an id that does not cast, it is 500.
\<close>

theorem profile_published_only:
  "(\<forall>j u. cast i = Some j \<and> find (\<lambda>u. user_id u = j) users = Some u \<longrightarrow>
      (\<exists>cards. get_profile cast users st i = Json 200 (user_doc.truncate u, cards)
         \<and> cards = map card (take 10 (sort_desc (filter (\<lambda>b. author b = j \<and> published b) st)))
         \<and> length cards \<le> 10
         \<and> sorted_wrt (\<lambda>x y. card_createdAt y \<le> card_createdAt x) cards
         \<and> (\<forall>c \<in> set cards. \<exists>b \<in> set st. author b = j \<and> published b \<and> c = card b)))
   \<and> (\<forall>c u cards k. get_profile cast users st i = Json c (u, cards)
         \<and> (\<forall>b \<in> set st. blog_id b = k \<longrightarrow> \<not> published b) \<longrightarrow>
         (\<forall>x \<in> set cards. card_id x \<noteq> k))
   \<and> (\<forall>j. cast i = Some j \<and> find (\<lambda>u. user_id u = j) users = None \<longrightarrow>
         get_profile cast users st i = Fail 404 ''User not found'' [])
   \<and> (cast i = None \<longrightarrow> get_profile cast users st i = Fail 500 ''Server error'' [])"
proof (intro conjI allI impI)
  fix j and u :: user
  assume a: "cast i = Some j \<and> find (\<lambda>u. user_id u = j) users = Some u"
  define cards where
    "cards = map card (take 10 (sort_desc (filter (\<lambda>b. author b = j \<and> published b) st)))"
  have m: "matches \<lparr>q_published = Some True, q_or = None, q_tags = None, q_author = Some j\<rparr>
      = (\<lambda>b. author b = j \<and> published b)"
    by (rule ext) (rule profile_query_matches)
  have g: "get_profile cast users st i = Json 200 (user_doc.truncate u, cards)"
    using a by (simp add: get_profile_def m cards_def)
  have len: "length cards \<le> 10" by (simp add: cards_def)
  have srt: "sorted_wrt (\<lambda>x y. card_createdAt y \<le> card_createdAt x) cards"
    unfolding cards_def by (rule sorted_cards)
  have src: "\<forall>c \<in> set cards. \<exists>b \<in> set st. author b = j \<and> published b \<and> c = card b"
  proof
    fix c assume "c \<in> set cards"
    then obtain b where
      b: "b \<in> set (take 10 (sort_desc (filter (\<lambda>b. author b = j \<and> published b) st)))"
      "c = card b" by (auto simp: cards_def)
    have "b \<in> set (sort_desc (filter (\<lambda>b. author b = j \<and> published b) st))"
      using b(1) by (rule in_set_takeD)
    then have "b \<in> set st \<and> author b = j \<and> published b" by (simp add: set_sort_desc)
    then show "\<exists>b \<in> set st. author b = j \<and> published b \<and> c = card b" using b(2) by blast
  qed
  show "\<exists>cards. get_profile cast users st i = Json 200 (user_doc.truncate u, cards)
         \<and> cards = map card (take 10 (sort_desc (filter (\<lambda>b. author b = j \<and> published b) st)))
         \<and> length cards \<le> 10
         \<and> sorted_wrt (\<lambda>x y. card_createdAt y \<le> card_createdAt x) cards
         \<and> (\<forall>c \<in> set cards. \<exists>b \<in> set st. author b = j \<and> published b \<and> c = card b)"
    using g len srt src cards_def by blast
next
  fix c and u :: user_doc and cards k
  assume a: "get_profile cast users st i = Json c (u, cards)
         \<and> (\<forall>b \<in> set st. blog_id b = k \<longrightarrow> \<not> published b)"
  then obtain j where cs: "cards
      = map card (take 10 (sort_desc (filter (\<lambda>b. author b = j \<and> published b) st)))"
    using get_profile_Json by blast
  show "\<forall>x \<in> set cards. card_id x \<noteq> k"
  proof
    fix x assume "x \<in> set cards"
    then obtain b where
      b: "b \<in> set (take 10 (sort_desc (filter (\<lambda>b. author b = j \<and> published b) st)))"
      "x = card b" using cs by auto
    have "b \<in> set (sort_desc (filter (\<lambda>b. author b = j \<and> published b) st))"
      using b(1) by (rule in_set_takeD)
    then have "b \<in> set st \<and> published b" by (simp add: set_sort_desc)
    then have "blog_id b \<noteq> k" using a by blast
    then show "card_id x \<noteq> k" using b(2) by (simp add: card_def)
  qed
next
  fix j
  assume "cast i = Some j \<and> find (\<lambda>u. user_id u = j) users = None"
  then show "get_profile cast users st i = Fail 404 ''User not found'' []"
    by (simp add: get_profile_def)
next
  assume "cast i = None"
  then show "get_profile cast users st i = Fail 500 ''Server error'' []"
    by (simp add: get_profile_def)
qed

theorem profile_published_only_witness:
  "hex_cast ann_param = Some ann
   \<and> find (\<lambda>u. user_id u = ann) [ann_user] = Some ann_user
   \<and> user_doc.truncate ann_user = ann_public
   \<and> get_profile hex_cast [ann_user] store ann_param = Json 200 (ann_public, [card hello])
   \<and> card hello = \<lparr>card_id = hello_id, card_title = ''Hello'', card_excerpt = ''Wor'',
                     card_createdAt = 10, card_views = 3, card_likes = [bob]\<rparr>
   \<and> author draft = ann \<and> published draft = False \<and> card_id (card hello) \<noteq> draft_id
   \<and> hex_cast bob_param = Some bob
   \<and> find (\<lambda>u. user_id u = bob) [ann_user] = None
   \<and> get_profile hex_cast [ann_user] store bob_param = Fail 404 ''User not found'' []
   \<and> hex_cast bad_param = None
   \<and> get_profile hex_cast [ann_user] store bad_param = Fail 500 ''Server error'' []"
proof -
  have ca: "hex_cast ann_param = Some ann"
    by (simp add: hex_cast_def hex_def lower_def ann_param_def ann_def)
  have cb: "hex_cast bob_param = Some bob"
    by (simp add: hex_cast_def hex_def lower_def bob_param_def bob_def)
  have f: "find (\<lambda>u. user_id u = ann) [ann_user] = Some ann_user"
    by (simp add: ann_user_def)
  have t: "user_doc.truncate ann_user = ann_public"
    by (simp add: ann_user_def ann_public_def user_doc.defs)
  have p: "take 10 (sort_desc (filter (\<lambda>b. author b = ann \<and> published b) store)) = [hello]"
    by (simp add: sort_desc_def example_defs)
  have n: "find (\<lambda>u. user_id u = bob) [ann_user] = None"
    by (simp add: ann_user_def example_defs)
  have c: "card hello = \<lparr>card_id = hello_id, card_title = ''Hello'', card_excerpt = ''Wor'',
                     card_createdAt = 10, card_views = 3, card_likes = [bob]\<rparr>"
    by (simp add: card_def hello_def)
  have d: "author draft = ann" "published draft = False" "card_id (card hello) \<noteq> draft_id"
    by (simp_all add: card_def example_defs)
  have g: "get_profile hex_cast [ann_user] store ann_param = Json 200 (ann_public, [card hello])"
    using profile_published_only[of hex_cast ann_param "[ann_user]" store] ca f t p by simp
  have e: "get_profile hex_cast [ann_user] store bob_param = Fail 404 ''User not found'' []"
    using profile_published_only[of hex_cast bob_param "[ann_user]" store] cb n by blast
  have x: "get_profile hex_cast [ann_user] store bad_param = Fail 500 ''Server error'' []"
    using profile_published_only[of hex_cast bad_param "[ann_user]" store] cast_bad by blast
  show ?thesis using ca cb cast_bad f t g c d n e x by simp
qed


end
